theory Spec2Isabelle
  imports Main "HOL-Library.Char_ord" "HOL-Library.List_Lexorder"
begin

section \<open>Strings and paths\<close>

text \<open>
  Strings are lists of 8-bit characters (the UTF-8 bytes of the Python string).
  Python orders strings by code point, which is the byte order of their UTF-8
  encodings; \<open>Char_ord\<close> and \<open>List_Lexorder\<close> give that order.

  \<open>lower_char\<close> lowers the ASCII letters only. On the one comparison the program
  makes, \<open>suffix.lower() == '.glb'\<close>, this agrees with Python's \<open>str.lower\<close>: no
  code point outside ASCII lowers to \<open>g\<close>, \<open>l\<close>, \<open>b\<close> or \<open>.\<close>.
\<close>

definition lower_char :: "char \<Rightarrow> char" where
  "lower_char c =
     (let n = (of_char c :: nat)
      in if 65 \<le> n \<and> n \<le> 90 then char_of (n + 32) else c)"

definition lower :: "string \<Rightarrow> string" where
  "lower s = map lower_char s"

text \<open>\<open>str.rfind\<close>: the index of the last occurrence of a character, or \<open>-1\<close>.\<close>

definition rfind :: "string \<Rightarrow> char \<Rightarrow> int" where
  "rfind s c = int (length (dropWhile (\<lambda>x. x \<noteq> c) (rev s))) - 1"

text \<open>
  The characters of a string: each byte that is not a continuation byte
  (\<open>0x80\<close> to \<open>0xbf\<close>) starts a character, which holds the continuation bytes
  that follow it.
\<close>

definition continuation :: "char \<Rightarrow> bool" where
  "continuation c = (let n = (of_char c :: nat) in 128 \<le> n \<and> n < 192)"

fun utf8_chars :: "string \<Rightarrow> string list" where
  "utf8_chars [] = []"
| "utf8_chars (c # s) =
     (case utf8_chars s of
        (d # x) # rest \<Rightarrow>
          if continuation d then (c # d # x) # rest else [c] # (d # x) # rest
      | other \<Rightarrow> [c] # other)"

text \<open>
  \<open>str.isspace\<close> of one character, given by its bytes. The white space of
  Python is: \<open>U+0009\<close> to \<open>U+000D\<close>, \<open>U+001C\<close> to \<open>U+0020\<close>, \<open>U+0085\<close>, \<open>U+00A0\<close>,
  \<open>U+1680\<close>, \<open>U+2000\<close> to \<open>U+200A\<close>, \<open>U+2028\<close>, \<open>U+2029\<close>, \<open>U+202F\<close>, \<open>U+205F\<close> and
  \<open>U+3000\<close>.
\<close>

definition is_space :: "string \<Rightarrow> bool" where
  "is_space ch =
     (case map of_char ch :: nat list of
        [n] \<Rightarrow> (9 \<le> n \<and> n \<le> 13) \<or> (28 \<le> n \<and> n \<le> 32)
      | [a, b] \<Rightarrow> a = 0xC2 \<and> (b = 0x85 \<or> b = 0xA0)
      | [a, b, c] \<Rightarrow>
          (a = 0xE1 \<and> b = 0x9A \<and> c = 0x80)
          \<or> (a = 0xE2 \<and> b = 0x80
              \<and> ((0x80 \<le> c \<and> c \<le> 0x8A) \<or> c = 0xA8 \<or> c = 0xA9 \<or> c = 0xAF))
          \<or> (a = 0xE2 \<and> b = 0x81 \<and> c = 0x9F)
          \<or> (a = 0xE3 \<and> b = 0x80 \<and> c = 0x80)
      | _ \<Rightarrow> False)"

text \<open>\<open>str.strip()\<close> with no argument: the white space at both ends is removed.\<close>

definition strip :: "string \<Rightarrow> string" where
  "strip s = concat (rev (dropWhile is_space (rev (dropWhile is_space (utf8_chars s)))))"

text \<open>\<open>' '.join(command)\<close>.\<close>

fun join_space :: "string list \<Rightarrow> string" where
  "join_space [] = []"
| "join_space [x] = x"
| "join_space (x # y # ys) = x @ '' '' @ join_space (y # ys)"

text \<open>
  A \<open>pathlib.Path\<close> is held as the list of its components below the root
  (every path of the program is absolute, being built from
  \<open>Path(__file__).parent.absolute()\<close>). The root itself is the empty list.
  Comparison of two paths is comparison of their component lists, as in
  pathlib.
\<close>

type_synonym path = "string list"

text \<open>\<open>Path.name\<close>: the final component, or the empty string for the root.\<close>

definition name :: "path \<Rightarrow> string" where
  "name p = (if p = [] then [] else last p)"

text \<open>\<open>Path.parent\<close>: the root is its own parent.\<close>

definition parent :: "path \<Rightarrow> path" where
  "parent p = butlast p"

text \<open>
  \<open>Path.suffix\<close> as pathlib computes it:
  \<^verbatim>\<open>i = name.rfind('.'); return name[i:] if 0 < i < len(name) - 1 else ''\<close>
\<close>

definition suffix :: "path \<Rightarrow> string" where
  "suffix p =
     (let nm = name p; i = rfind nm (CHR ''.'')
      in if 0 < i \<and> i < int (length nm) - 1 then drop (nat i) nm else [])"

text \<open>
  The operator \<open>/\<close> with a string that is a single component (the program joins
  only the literals \<open>data\<close>, \<open>imports\<close>, \<open>exports\<close>, \<open>resize\<close>, \<open>webp\<close>, \<open>draco\<close> and
  the \<open>name\<close> of a path, which never holds a separator). An empty segment and the
  segment \<open>.\<close> add nothing.
\<close>

definition joinpath :: "path \<Rightarrow> string \<Rightarrow> path" where
  "joinpath p s = (if s = [] \<or> s = ''.'' then p else p @ [s])"

text \<open>\<open>str(path)\<close> of an absolute POSIX path.\<close>

definition str_path :: "path \<Rightarrow> string" where
  "str_path p = (if p = [] then ''/'' else concat (map (\<lambda>c. ''/'' @ c) p))"

section \<open>The file system\<close>

text \<open>
  The file system is an association list from paths to nodes; the order of
  the list is the order in which the operating system lists a directory.
  A directory carries a flag telling whether entries may be created in it.
  \<open>Special\<close> stands for everything that is neither a regular file nor a
  directory (a socket, a device, a named pipe). A symbolic link stands for
  what it points to; a link that points to nothing is not modelled.
\<close>

datatype node = File | Special | Dir bool

type_synonym fs = "(path \<times> node) list"

text \<open>
  The errors of the operating system, with the file name they carry. The
  program tells \<open>FileNotFoundError\<close> from the others; \<open>OtherOSError\<close> stands for
  every error without a class of its own (an executable of the wrong format,
  too many open files).
\<close>

datatype oserror =
    FileNotFoundError path
  | NotADirectoryError path
  | FileExistsError path
  | PermissionError path
  | OtherOSError path

definition path_exists :: "fs \<Rightarrow> path \<Rightarrow> bool" where
  "path_exists fsy p = (map_of fsy p \<noteq> None)"

definition is_file :: "fs \<Rightarrow> path \<Rightarrow> bool" where
  "is_file fsy p = (map_of fsy p = Some File)"

definition is_dir :: "fs \<Rightarrow> path \<Rightarrow> bool" where
  "is_dir fsy p = (case map_of fsy p of Some (Dir _) \<Rightarrow> True | _ \<Rightarrow> False)"

text \<open>The entries directly inside a directory, each once, in listing order.\<close>

definition children :: "fs \<Rightarrow> path \<Rightarrow> path list" where
  "children fsy d = remdups (filter (\<lambda>p. p \<noteq> [] \<and> butlast p = d) (map fst fsy))"

text \<open>\<open>os.listdir\<close> behind \<open>Path.iterdir\<close>: fails unless the path is a directory.\<close>

definition listdir :: "fs \<Rightarrow> path \<Rightarrow> oserror + path list" where
  "listdir fsy d =
     (case map_of fsy d of
        None \<Rightarrow> Inl (FileNotFoundError d)
      | Some (Dir _) \<Rightarrow> Inr (children fsy d)
      | Some _ \<Rightarrow> Inl (NotADirectoryError d))"

text \<open>
  \<open>os.mkdir\<close>: creates one directory. It fails when the path exists, when its
  parent is missing or is not a directory, and when the parent refuses new
  entries.
\<close>

definition os_mkdir :: "fs \<Rightarrow> path \<Rightarrow> oserror + fs" where
  "os_mkdir fsy p =
     (case map_of fsy p of
        Some _ \<Rightarrow> Inl (FileExistsError p)
      | None \<Rightarrow>
          (case map_of fsy (butlast p) of
             None \<Rightarrow> Inl (FileNotFoundError p)
           | Some (Dir writable) \<Rightarrow>
               if writable then Inr (fsy @ [(p, Dir True)]) else Inl (PermissionError p)
           | Some _ \<Rightarrow> Inl (NotADirectoryError p)))"

text \<open>
  \<open>Path.mkdir(parents, exist_ok)\<close> as pathlib writes it:
  \<^verbatim>\<open>
  try:
      os.mkdir(self, mode)
  except FileNotFoundError:
      if not parents or self.parent == self:
          raise
      self.parent.mkdir(parents=True, exist_ok=True)
      self.mkdir(mode, parents=False, exist_ok=exist_ok)
  except OSError:
      if not exist_ok or not self.is_dir():
          raise
  \<close>
\<close>

function mkdir :: "fs \<Rightarrow> path \<Rightarrow> bool \<Rightarrow> bool \<Rightarrow> oserror + fs" where
  "mkdir fsy p parents exist_ok =
     (case os_mkdir fsy p of
        Inr fsy' \<Rightarrow> Inr fsy'
      | Inl (FileNotFoundError q) \<Rightarrow>
          if \<not> parents \<or> p = [] then Inl (FileNotFoundError q)
          else (case mkdir fsy (butlast p) True True of
                  Inl e \<Rightarrow> Inl e
                | Inr fsy' \<Rightarrow> mkdir fsy' p False exist_ok)
      | Inl e \<Rightarrow> if \<not> exist_ok \<or> \<not> is_dir fsy p then Inl e else Inr fsy)"
  by pat_completeness auto
termination
  by (relation "measure (\<lambda>(fsy, p, parents, exist_ok). 2 * length p + (if parents then 1 else 0))")
     auto

declare mkdir.simps [simp del]

section \<open>The world of a run\<close>

text \<open>
  Each constructor of \<open>line\<close> is one \<open>print\<close> call of the program, with the values
  it interpolates:
  \<^item> \<open>Running d\<close>: \<^verbatim>\<open>Running: {description}\<close>; \<open>Command c\<close>: \<^verbatim>\<open>Command: {' '.join(command)}\<close>;
  \<^item> \<open>Success d\<close>: \<^verbatim>\<open>Success: {description}\<close>; \<open>Output s\<close>: \<^verbatim>\<open>Output: {result.stdout.strip()}\<close>;
  \<^item> \<open>ErrorIn d\<close>: \<^verbatim>\<open>Error: {description}\<close>; \<open>ReturnCode n\<close>: \<^verbatim>\<open>Return code: {e.returncode}\<close>;
    \<open>Stdout s\<close> and \<open>Stderr s\<close>: \<^verbatim>\<open>Stdout: {e.stdout.strip()}\<close>, \<^verbatim>\<open>Stderr: {e.stderr.strip()}\<close>;
  \<^item> \<open>ToolNotFound\<close>: \<^verbatim>\<open>Error: gltf-transform not found. Please ensure it's installed and in PATH.\<close>;
  \<^item> \<open>BlankRule\<close> and \<open>Rule\<close>: the line of sixty \<open>=\<close>, with and without the empty line before it;
  \<^item> \<open>Processing n\<close>: \<^verbatim>\<open>Processing: {input_file.name}\<close>;
    \<open>Processed n\<close>: \<^verbatim>\<open>Successfully processed: {input_file.name}\<close>;
  \<^item> \<open>ImportsNotFound p\<close>: \<^verbatim>\<open>Error: Imports directory not found: {imports_dir}\<close>;
  \<^item> \<open>NoFiles\<close>: \<^verbatim>\<open>No GLB files found in the imports directory.\<close>;
  \<^item> \<open>Found k\<close>: \<^verbatim>\<open>Found {len(glb_files)} GLB files to process:\<close>; \<open>Item n\<close>: \<^verbatim>\<open>  - {file_path.name}\<close>;
  \<^item> \<open>FailedToProcess n\<close>: \<^verbatim>\<open>Failed to process: {file_path.name}\<close>;
  \<^item> \<open>SummaryTitle\<close>: \<^verbatim>\<open>PROCESSING SUMMARY\<close>; \<open>TotalFiles k\<close>, \<open>Successful k\<close>, \<open>Failed k\<close>:
    \<^verbatim>\<open>Total files: {len(glb_files)}\<close>, \<^verbatim>\<open>Successful: {successful}\<close>, \<^verbatim>\<open>Failed: {failed}\<close>;
  \<^item> \<open>AllOk\<close>: \<^verbatim>\<open>All files processed successfully!\<close>.
\<close>

datatype line =
    Running string
  | Command string
  | Success string
  | Output string
  | ErrorIn string
  | ReturnCode int
  | Stdout string
  | Stderr string
  | ToolNotFound
  | BlankRule
  | Rule
  | Processing string
  | Processed string
  | ImportsNotFound path
  | NoFiles
  | Found nat
  | Item string
  | FailedToProcess string
  | SummaryTitle
  | TotalFiles nat
  | Successful nat
  | Failed nat
  | AllOk

text \<open>
  What a run does to the outside, in order: a line printed, a directory listed,
  a \<open>mkdir(parents=True, exist_ok=True)\<close> that returned, a command handed to
  \<open>subprocess.run\<close>. Writing a line to the standard output is taken to succeed.
\<close>

datatype event =
    Print line
  | ListDir path
  | MakeDir path
  | Exec "string list"

record world =
  fsys :: fs
  trace :: "event list"

text \<open>
  What happens when a command is handed to the operating system: the process
  runs and leaves a return code with its output and error streams, decoded; or
  the process cannot be started, with the error of the operating system
  (\<open>FileNotFoundError\<close> when the executable is not found, \<open>PermissionError\<close> when
  it may not be executed, and so on); or the process runs and what it wrote
  cannot be decoded as text. The external tool is a function from the command
  to that outcome. The files it writes are never read by the program and are
  not part of the model.
\<close>

datatype proc_result =
    Completed int string string
  | StartFailed oserror
  | Undecodable

type_synonym tool = "string list \<Rightarrow> proc_result"

text \<open>
  Exceptions: an operating system error, the \<open>CalledProcessError\<close> of
  \<open>subprocess.run\<close> (return code, output, error stream), the
  \<open>UnicodeDecodeError\<close> of decoding, and \<open>sys.exit(n)\<close>.
\<close>

datatype exn =
    OSError oserror
  | CalledProcessError int string string
  | UnicodeDecodeError
  | SystemExit int

datatype 'a result = Ok 'a | Raise exn

type_synonym 'a prog = "world \<Rightarrow> 'a result \<times> world"

definition ret :: "'a \<Rightarrow> 'a prog" where
  "ret x w = (Ok x, w)"

definition raise :: "exn \<Rightarrow> 'a prog" where
  "raise e w = (Raise e, w)"

definition bnd :: "'a prog \<Rightarrow> ('a \<Rightarrow> 'b prog) \<Rightarrow> 'b prog" where
  "bnd m f w = (case m w of (Ok x, w') \<Rightarrow> f x w' | (Raise e, w') \<Rightarrow> (Raise e, w'))"

definition emit :: "event \<Rightarrow> unit prog" where
  "emit e w = (Ok (), w\<lparr>trace := trace w @ [e]\<rparr>)"

definition print_line :: "line \<Rightarrow> unit prog" where
  "print_line l = emit (Print l)"

definition exists_path :: "path \<Rightarrow> bool prog" where
  "exists_path p w = (Ok (path_exists (fsys w) p), w)"

definition is_file_path :: "path \<Rightarrow> bool prog" where
  "is_file_path p w = (Ok (is_file (fsys w) p), w)"

definition iterdir :: "path \<Rightarrow> path list prog" where
  "iterdir d =
     bnd (emit (ListDir d)) (\<lambda>_ w.
       case listdir (fsys w) d of
         Inl e \<Rightarrow> (Raise (OSError e), w)
       | Inr ps \<Rightarrow> (Ok ps, w))"

definition mkdir_parents_exist_ok :: "path \<Rightarrow> unit prog" where
  "mkdir_parents_exist_ok d w =
     (case mkdir (fsys w) d True True of
        Inl e \<Rightarrow> (Raise (OSError e), w)
      | Inr fsy' \<Rightarrow> (Ok (), w\<lparr>fsys := fsy', trace := trace w @ [MakeDir d]\<rparr>))"

text \<open>
  \<open>try: body except ...\<close>: the handler tells which exceptions are caught, and
  what is run for each; every other exception goes on.
\<close>

definition try_except :: "'a prog \<Rightarrow> (exn \<Rightarrow> 'a prog option) \<Rightarrow> 'a prog" where
  "try_except body handler w =
     (case body w of
        (Ok x, w') \<Rightarrow> (Ok x, w')
      | (Raise e, w') \<Rightarrow> (case handler e of None \<Rightarrow> (Raise e, w') | Some h \<Rightarrow> h w'))"

text \<open>
  \<open>subprocess.run(command, check=True, capture_output=True, text=True)\<close>: returns
  the captured output and error streams of a process that left the return
  code \<open>0\<close>; with \<open>check=True\<close> every other return code is raised as
  \<open>CalledProcessError\<close>; the error of a process that cannot be started, and the
  error of decoding, are raised as they are.
\<close>

definition subprocess_run :: "tool \<Rightarrow> string list \<Rightarrow> (string \<times> string) prog" where
  "subprocess_run T command =
     bnd (emit (Exec command)) (\<lambda>_.
       case T command of
         Completed returncode out err \<Rightarrow>
           if returncode \<noteq> 0 then raise (CalledProcessError returncode out err)
           else ret (out, err)
       | StartFailed e \<Rightarrow> raise (OSError e)
       | Undecodable \<Rightarrow> raise UnicodeDecodeError)"

text \<open>
  A \<open>for\<close> loop over a list: the body is run on each element in order, on the
  variables the loop updates; an exception raised by the body ends the loop.
\<close>

primrec for_each :: "'a list \<Rightarrow> ('a \<Rightarrow> 's \<Rightarrow> 's prog) \<Rightarrow> 's \<Rightarrow> 's prog" where
  "for_each [] body s = ret s"
| "for_each (x # xs) body s = bnd (body x s) (for_each xs body)"

section \<open>The program\<close>

subsection \<open>\<open>get_glb_files\<close>\<close>

text \<open>The body of the loop over the directory entries, on the list it appends to.\<close>

definition get_glb_files_body :: "path \<Rightarrow> path list \<Rightarrow> path list prog" where
  "get_glb_files_body file_path glb_files =
     bnd (is_file_path file_path) (\<lambda>isf.
     if isf \<and> lower (suffix file_path) = ''.glb''
     then ret (glb_files @ [file_path])
     else ret glb_files)"

definition get_glb_files :: "path \<Rightarrow> path list prog" where
  "get_glb_files imports_dir =
     bnd (iterdir imports_dir) (\<lambda>entries.
     bnd (for_each entries get_glb_files_body []) (\<lambda>glb_files.
     ret (sort glb_files)))"

subsection \<open>\<open>run_command\<close>\<close>

text \<open>
  The two \<open>except\<close> clauses of \<open>run_command\<close>, in their order: \<open>CalledProcessError\<close>
  and \<open>FileNotFoundError\<close>. No other exception is caught.
\<close>

definition run_command_except :: "string \<Rightarrow> exn \<Rightarrow> bool prog option" where
  "run_command_except description e =
     (case e of
        CalledProcessError returncode out err \<Rightarrow>
          Some (bnd (print_line (ErrorIn description)) (\<lambda>_.
                bnd (print_line (ReturnCode returncode)) (\<lambda>_.
                bnd (if out \<noteq> [] then print_line (Stdout (strip out)) else ret ()) (\<lambda>_.
                bnd (if err \<noteq> [] then print_line (Stderr (strip err)) else ret ()) (\<lambda>_.
                ret False)))))
      | OSError (FileNotFoundError _) \<Rightarrow>
          Some (bnd (print_line ToolNotFound) (\<lambda>_. ret False))
      | _ \<Rightarrow> None)"

definition run_command :: "tool \<Rightarrow> string list \<Rightarrow> string \<Rightarrow> bool prog" where
  "run_command T command description =
     bnd (print_line (Running description)) (\<lambda>_.
     bnd (print_line (Command (join_space command))) (\<lambda>_.
     try_except
       (bnd (subprocess_run T command) (\<lambda>result.
        bnd (print_line (Success description)) (\<lambda>_.
        bnd (if fst result \<noteq> [] then print_line (Output (strip (fst result))) else ret ())
          (\<lambda>_.
        ret True))))
       (run_command_except description)))"

subsection \<open>\<open>process_glb_file\<close>\<close>

definition stage_output :: "path \<Rightarrow> string \<Rightarrow> path \<Rightarrow> path" where
  "stage_output base_dir stage input_file =
     joinpath (joinpath (joinpath (joinpath base_dir ''data'') ''exports'') stage)
       (name input_file)"

definition resize_cmd :: "path \<Rightarrow> path \<Rightarrow> string list" where
  "resize_cmd input_file resize_output =
     [''gltf-transform'', ''resize'', str_path input_file, str_path resize_output,
      ''--width'', ''1024'', ''--height'', ''1024'']"

definition webp_cmd :: "path \<Rightarrow> path \<Rightarrow> string list" where
  "webp_cmd resize_output webp_output =
     [''gltf-transform'', ''webp'', str_path resize_output, str_path webp_output,
      ''--slots'', ''baseColor'']"

definition draco_cmd :: "path \<Rightarrow> path \<Rightarrow> string list" where
  "draco_cmd webp_output draco_output =
     [''gltf-transform'', ''optimize'', str_path webp_output, str_path draco_output,
      ''--texture-compress'', ''webp'']"

definition process_glb_file :: "tool \<Rightarrow> path \<Rightarrow> path \<Rightarrow> bool prog" where
  "process_glb_file T input_file base_dir =
     bnd (print_line BlankRule) (\<lambda>_.
     bnd (print_line (Processing (name input_file))) (\<lambda>_.
     bnd (print_line Rule) (\<lambda>_.
     let resize_output = stage_output base_dir ''resize'' input_file;
         webp_output = stage_output base_dir ''webp'' input_file;
         draco_output = stage_output base_dir ''draco'' input_file
     in
     bnd (mkdir_parents_exist_ok (parent resize_output)) (\<lambda>_.
     bnd (mkdir_parents_exist_ok (parent webp_output)) (\<lambda>_.
     bnd (mkdir_parents_exist_ok (parent draco_output)) (\<lambda>_.
     bnd (run_command T (resize_cmd input_file resize_output)
            (''Resize '' @ name input_file)) (\<lambda>ok1.
     if \<not> ok1 then ret False else
     bnd (run_command T (webp_cmd resize_output webp_output)
            (''WebP conversion '' @ name input_file)) (\<lambda>ok2.
     if \<not> ok2 then ret False else
     bnd (run_command T (draco_cmd webp_output draco_output)
            (''Draco optimization '' @ name input_file)) (\<lambda>ok3.
     if \<not> ok3 then ret False else
     bnd (print_line (Processed (name input_file))) (\<lambda>_.
     ret True))))))))))"

subsection \<open>\<open>main\<close>\<close>

text \<open>The body of the loop that prints the names of the files found.\<close>

definition main_list_body :: "path \<Rightarrow> unit \<Rightarrow> unit prog" where
  "main_list_body file_path u = print_line (Item (name file_path))"

text \<open>
  The body of the loop that processes each file, on the pair of counters
  \<open>(successful, failed)\<close> it updates.
\<close>

definition main_process_body :: "tool \<Rightarrow> path \<Rightarrow> path \<Rightarrow> nat \<times> nat \<Rightarrow> (nat \<times> nat) prog" where
  "main_process_body T script_dir file_path counts =
     bnd (process_glb_file T file_path script_dir) (\<lambda>ok.
     if ok then ret (fst counts + 1, snd counts)
     else bnd (print_line (FailedToProcess (name file_path))) (\<lambda>_.
          ret (fst counts, snd counts + 1)))"

definition main :: "tool \<Rightarrow> path \<Rightarrow> unit prog" where
  "main T script_dir =
     (let imports_dir = joinpath (joinpath script_dir ''data'') ''imports'' in
      bnd (exists_path imports_dir) (\<lambda>ex.
      if \<not> ex then
        bnd (print_line (ImportsNotFound imports_dir)) (\<lambda>_. raise (SystemExit 1))
      else
      bnd (get_glb_files imports_dir) (\<lambda>glb_files.
      if glb_files = [] then
        bnd (print_line NoFiles) (\<lambda>_. raise (SystemExit 0))
      else
      bnd (print_line (Found (length glb_files))) (\<lambda>_.
      bnd (for_each glb_files main_list_body ()) (\<lambda>_.
      bnd (for_each glb_files (main_process_body T script_dir) (0, 0)) (\<lambda>counts.
      let successful = fst counts; failed = snd counts in
      bnd (print_line BlankRule) (\<lambda>_.
      bnd (print_line SummaryTitle) (\<lambda>_.
      bnd (print_line Rule) (\<lambda>_.
      bnd (print_line (TotalFiles (length glb_files))) (\<lambda>_.
      bnd (print_line (Successful successful)) (\<lambda>_.
      bnd (print_line (Failed failed)) (\<lambda>_.
      if failed > 0 then raise (SystemExit 1)
      else print_line AllOk))))))))))))"

text \<open>
  The exit status of the interpreter running \<open>main()\<close>: the argument of
  \<open>sys.exit\<close>, \<open>0\<close> when \<open>main\<close> returns, and \<open>1\<close> when an exception other than
  \<open>SystemExit\<close> reaches the top level.
\<close>

fun exit_status :: "unit result \<Rightarrow> int" where
  "exit_status (Ok _) = 0"
| "exit_status (Raise (SystemExit n)) = n"
| "exit_status (Raise _) = 1"

definition run_script :: "tool \<Rightarrow> path \<Rightarrow> world \<Rightarrow> int \<times> world" where
  "run_script T script_dir w = (case main T script_dir w of (r, w') \<Rightarrow> (exit_status r, w'))"

section \<open>Vocabulary of the properties\<close>

text \<open>
  The definitions of this section are not part of the program: they name what
  the properties below speak about (which commands were run, which lines were
  printed, which files count as processed), and the closed forms that the
  lemmas give to the program's functions.
\<close>

text \<open>The commands handed to \<open>subprocess.run\<close>, and the lines printed, in order.\<close>

fun execs :: "event list \<Rightarrow> string list list" where
  "execs [] = []"
| "execs (Exec c # tr) = c # execs tr"
| "execs (_ # tr) = execs tr"

fun printed :: "event list \<Rightarrow> line list" where
  "printed [] = []"
| "printed (Print l # tr) = l # printed tr"
| "printed (_ # tr) = printed tr"

text \<open>An external process succeeded: it ran and left the return code \<open>0\<close>.\<close>

fun succeeded :: "proc_result \<Rightarrow> bool" where
  "succeeded (Completed returncode out err) = (returncode = 0)"
| "succeeded (StartFailed e) = False"
| "succeeded Undecodable = False"

text \<open>
  The exception that leaves \<open>run_command\<close>, if any: every error of starting the
  process but \<open>FileNotFoundError\<close>, and the error of decoding.
\<close>

fun raised :: "proc_result \<Rightarrow> exn option" where
  "raised (Completed returncode out err) = None"
| "raised (StartFailed (FileNotFoundError p)) = None"
| "raised (StartFailed e) = Some (OSError e)"
| "raised Undecodable = Some UnicodeDecodeError"

text \<open>The lines \<open>run_command\<close> prints once the process has ended.\<close>

fun report :: "proc_result \<Rightarrow> string \<Rightarrow> line list" where
  "report (Completed returncode out err) description =
     (if returncode = 0
      then Success description # (if out \<noteq> [] then [Output (strip out)] else [])
      else ErrorIn description # ReturnCode returncode #
           (if out \<noteq> [] then [Stdout (strip out)] else []) @
           (if err \<noteq> [] then [Stderr (strip err)] else []))"
| "report (StartFailed (FileNotFoundError p)) description = [ToolNotFound]"
| "report (StartFailed e) description = []"
| "report Undecodable description = []"

definition run_command_events :: "tool \<Rightarrow> string list \<Rightarrow> string \<Rightarrow> event list" where
  "run_command_events T command description =
     [Print (Running description), Print (Command (join_space command)), Exec command]
     @ map Print (report (T command) description)"

text \<open>Creating a list of directories in order, stopping at the first failure.\<close>

fun ensure_dirs :: "fs \<Rightarrow> path list \<Rightarrow> oserror + fs" where
  "ensure_dirs fsy [] = Inr fsy"
| "ensure_dirs fsy (d # ds) =
     (case mkdir fsy d True True of Inl e \<Rightarrow> Inl e | Inr fsy' \<Rightarrow> ensure_dirs fsy' ds)"

text \<open>
  The three directories \<open>process_glb_file\<close> creates for a file, and the three
  commands it builds, in the order of the source.
\<close>

definition file_stage_dirs :: "path \<Rightarrow> path \<Rightarrow> path list" where
  "file_stage_dirs base_dir input_file =
     map (\<lambda>stage. parent (stage_output base_dir stage input_file)) [''resize'', ''webp'', ''draco'']"

definition file_cmds :: "path \<Rightarrow> path \<Rightarrow> string list list" where
  "file_cmds base_dir input_file =
     [resize_cmd input_file (stage_output base_dir ''resize'' input_file),
      webp_cmd (stage_output base_dir ''resize'' input_file) (stage_output base_dir ''webp'' input_file),
      draco_cmd (stage_output base_dir ''webp'' input_file) (stage_output base_dir ''draco'' input_file)]"

text \<open>
  Of a list of commands, those that run when each is run only if all before it
  succeeded.
\<close>

fun invoked :: "tool \<Rightarrow> string list list \<Rightarrow> string list list" where
  "invoked T [] = []"
| "invoked T (c # cs) = c # (if succeeded (T c) then invoked T cs else [])"

text \<open>
  The exception that leaves a run of such a list of commands, if any: the one
  of the first command that does not succeed.
\<close>

fun steps_raised :: "tool \<Rightarrow> string list list \<Rightarrow> exn option" where
  "steps_raised T [] = None"
| "steps_raised T (c # cs) = (if succeeded (T c) then steps_raised T cs else raised (T c))"

text \<open>A file is processed successfully when each of its three commands succeeds.\<close>

definition file_ok :: "tool \<Rightarrow> path \<Rightarrow> path \<Rightarrow> bool" where
  "file_ok T base_dir input_file = list_all (\<lambda>c. succeeded (T c)) (file_cmds base_dir input_file)"

definition header :: "path \<Rightarrow> event list" where
  "header input_file = [Print BlankRule, Print (Processing (name input_file)), Print Rule]"

definition descriptions :: "path \<Rightarrow> string list" where
  "descriptions input_file =
     [''Resize '' @ name input_file, ''WebP conversion '' @ name input_file,
      ''Draco optimization '' @ name input_file]"

fun run_steps :: "tool \<Rightarrow> (string list \<times> string) list \<Rightarrow> event list" where
  "run_steps T [] = []"
| "run_steps T ((c, d) # rest) =
     run_command_events T c d @ (if succeeded (T c) then run_steps T rest else [])"

text \<open>
  A file is processed to its end when no exception leaves the commands that
  are run for it: \<open>process_glb_file\<close> returns, with \<open>True\<close> or with \<open>False\<close>.
\<close>

definition completes :: "tool \<Rightarrow> path \<Rightarrow> path \<Rightarrow> bool" where
  "completes T base_dir input_file = (steps_raised T (file_cmds base_dir input_file) = None)"

text \<open>Everything \<open>process_glb_file\<close> does for a file whose directories can be created.\<close>

definition file_events :: "tool \<Rightarrow> path \<Rightarrow> path \<Rightarrow> event list" where
  "file_events T base_dir input_file =
     header input_file @ map MakeDir (file_stage_dirs base_dir input_file)
     @ run_steps T (zip (file_cmds base_dir input_file) (descriptions input_file))
     @ (if file_ok T base_dir input_file then [Print (Processed (name input_file))] else [])"

text \<open>
  The asset extension, in the words of the specification: the name is longer
  than the extension and ends with \<open>.glb\<close> in any letter case.
\<close>

definition has_asset_extension :: "string \<Rightarrow> bool" where
  "has_asset_extension nm =
     (4 < length nm \<and> lower (drop (length nm - 4) nm) = ''.glb'')"

text \<open>The test of the loop in \<open>get_glb_files\<close>.\<close>

definition matches :: "fs \<Rightarrow> path \<Rightarrow> bool" where
  "matches fsy p = (is_file fsy p \<and> lower (suffix p) = ''.glb'')"

text \<open>The fixed directories of a run, and the files a run discovers.\<close>

definition imports_of :: "path \<Rightarrow> path" where
  "imports_of script_dir = joinpath (joinpath script_dir ''data'') ''imports''"

definition stage_dirs :: "path \<Rightarrow> path list" where
  "stage_dirs script_dir =
     map (\<lambda>stage. script_dir @ [''data'', ''exports'', stage]) [''resize'', ''webp'', ''draco'']"

definition discovered :: "path \<Rightarrow> fs \<Rightarrow> path list" where
  "discovered script_dir fsy =
     sort (filter (matches fsy) (children fsy (imports_of script_dir)))"

text \<open>The numbers of files of a list that fail and that succeed.\<close>

definition failures :: "tool \<Rightarrow> path \<Rightarrow> path list \<Rightarrow> nat" where
  "failures T script_dir gs = length (filter (\<lambda>f. \<not> file_ok T script_dir f) gs)"

definition successes :: "tool \<Rightarrow> path \<Rightarrow> path list \<Rightarrow> nat" where
  "successes T script_dir gs = length (filter (file_ok T script_dir) gs)"

definition file_trace :: "tool \<Rightarrow> path \<Rightarrow> path \<Rightarrow> event list" where
  "file_trace T script_dir f =
     file_events T script_dir f
     @ (if file_ok T script_dir f then [] else [Print (FailedToProcess (name f))])"

definition summary :: "tool \<Rightarrow> path \<Rightarrow> path list \<Rightarrow> line list" where
  "summary T script_dir gs =
     [BlankRule, SummaryTitle, Rule, TotalFiles (length gs),
      Successful (successes T script_dir gs), Failed (failures T script_dir gs)]"

text \<open>Everything a run does once its input directory is found to be a directory
  holding the files \<open>gs\<close>, when the stage directories can be created and each
  file is processed to its end.\<close>

definition run_trace :: "tool \<Rightarrow> path \<Rightarrow> path list \<Rightarrow> event list" where
  "run_trace T script_dir gs =
     [ListDir (imports_of script_dir), Print (Found (length gs))]
     @ map (\<lambda>f. Print (Item (name f))) gs
     @ concat (map (file_trace T script_dir) gs)
     @ map Print (summary T script_dir gs)
     @ (if failures T script_dir gs = 0 then [Print AllOk] else [])"

section \<open>Example runs\<close>

text \<open>
  A small installation used to instantiate the theorems: the program lives in
  \<open>/srv\<close>; its input directory holds two assets, a file named \<open>.glb\<close>, a text
  file and a directory whose name ends in \<open>.glb\<close>.
\<close>

definition demo_dir :: path where
  "demo_dir = [''srv'']"

definition demo_fs :: fs where
  "demo_fs =
     [([], Dir True), ([''srv''], Dir True), ([''srv'', ''data''], Dir True),
      ([''srv'', ''data'', ''imports''], Dir True),
      ([''srv'', ''data'', ''imports'', ''b.glb''], File),
      ([''srv'', ''data'', ''imports'', ''a.GLB''], File),
      ([''srv'', ''data'', ''imports'', ''.glb''], File),
      ([''srv'', ''data'', ''imports'', ''notes.txt''], File),
      ([''srv'', ''data'', ''imports'', ''c.glb''], Dir True)]"

definition demo_world :: world where
  "demo_world = \<lparr>fsys = demo_fs, trace = []\<rparr>"

text \<open>The same installation where \<open>data/exports\<close> exists as a regular file.\<close>

definition blocked_world :: world where
  "blocked_world = \<lparr>fsys = demo_fs @ [([''srv'', ''data'', ''exports''], File)], trace = []\<rparr>"

text \<open>An installation whose directory \<open>data\<close> refuses new entries.\<close>

definition locked_world :: world where
  "locked_world =
     \<lparr>fsys = [([], Dir True), ([''srv''], Dir True), ([''srv'', ''data''], Dir False),
              ([''srv'', ''data'', ''imports''], Dir True),
              ([''srv'', ''data'', ''imports'', ''a.glb''], File)],
      trace = []\<rparr>"

text \<open>An input directory without any asset, and an installation without input directory.\<close>

definition idle_world :: world where
  "idle_world =
     \<lparr>fsys = [([], Dir True), ([''srv''], Dir True), ([''srv'', ''data''], Dir True),
              ([''srv'', ''data'', ''imports''], Dir True),
              ([''srv'', ''data'', ''imports'', ''notes.txt''], File)],
      trace = []\<rparr>"

definition bare_world :: world where
  "bare_world = \<lparr>fsys = [([], Dir True), ([''srv''], Dir True)], trace = []\<rparr>"

text \<open>
  A tool that always succeeds, and one that fails on the WebP step of \<open>b.glb\<close>;
  what it writes then begins with a no-break space (\<open>U+00A0\<close>).
\<close>

definition good_tool :: tool where
  "good_tool command = Completed 0 [] []"

definition demo_tool :: tool where
  "demo_tool command =
     (if take 3 command = [''gltf-transform'', ''webp'', ''/srv/data/exports/resize/b.glb'']
      then Completed 1 ([CHR 0xC2, CHR 0xA0] @ '' partial '') ''bad texture''
      else Completed 0 [] [])"

text \<open>
  A tool whose executable is not found, and one whose executable may not be
  executed.
\<close>

definition missing_tool :: tool where
  "missing_tool command = StartFailed (FileNotFoundError [''gltf-transform''])"

definition denied_tool :: tool where
  "denied_tool command = StartFailed (PermissionError [''gltf-transform''])"

definition demo_a :: path where
  "demo_a = [''srv'', ''data'', ''imports'', ''a.GLB'']"

definition demo_b :: path where
  "demo_b = [''srv'', ''data'', ''imports'', ''b.glb'']"

definition demo_fs_after :: fs where
  "demo_fs_after =
     demo_fs @ [([''srv'', ''data'', ''exports''], Dir True),
                ([''srv'', ''data'', ''exports'', ''resize''], Dir True),
                ([''srv'', ''data'', ''exports'', ''webp''], Dir True),
                ([''srv'', ''data'', ''exports'', ''draco''], Dir True)]"

section \<open>Lemmas\<close>

lemma bnd_ret [simp]: "bnd (ret x) f = f x"
  by (rule ext) (simp add: bnd_def ret_def)

lemma bnd_Ok: "m w = (Ok x, w1) \<Longrightarrow> bnd m f w = f x w1"
  by (simp add: bnd_def)

lemma bnd_Raise: "m w = (Raise e, w1) \<Longrightarrow> bnd m f w = (Raise e, w1)"
  by (simp add: bnd_def)

lemma bnd_emit [simp]: "bnd (emit e) f w = f () (w\<lparr>trace := trace w @ [e]\<rparr>)"
  by (simp add: bnd_def emit_def)

lemma bnd_print_line [simp]: "bnd (print_line l) f w = f () (w\<lparr>trace := trace w @ [Print l]\<rparr>)"
  by (simp add: print_line_def)

lemma print_line_apply: "print_line l w = (Ok (), w\<lparr>trace := trace w @ [Print l]\<rparr>)"
  by (simp add: print_line_def emit_def)

lemma execs_append [simp]: "execs (xs @ ys) = execs xs @ execs ys"
  by (induction xs rule: execs.induct) simp_all

lemma printed_append [simp]: "printed (xs @ ys) = printed xs @ printed ys"
  by (induction xs rule: printed.induct) simp_all

lemma printed_map_Print [simp]: "printed (map Print ls) = ls"
  by (induction ls) simp_all

lemma execs_map_Print [simp]: "execs (map Print ls) = []"
  by (induction ls) simp_all

lemma succeeded_raised: "succeeded r \<Longrightarrow> raised r = None"
  by (cases r) simp_all

lemma raised_exit_status: "raised r = Some e \<Longrightarrow> exit_status (Raise e) = 1"
  by (cases r rule: raised.cases) auto

lemma run_command_eq:
  "run_command T command description w =
     ((case raised (T command) of None \<Rightarrow> Ok (succeeded (T command)) | Some e \<Rightarrow> Raise e),
      w\<lparr>trace := trace w @ run_command_events T command description\<rparr>)"
proof (cases "T command")
  case (Completed returncode out err)
  then show ?thesis
    by (simp add: run_command_def run_command_events_def subprocess_run_def try_except_def
          run_command_except_def ret_def raise_def bnd_def emit_def print_line_def)
next
  case (StartFailed e)
  then show ?thesis
    by (cases e)
       (simp_all add: run_command_def run_command_events_def subprocess_run_def try_except_def
          run_command_except_def ret_def raise_def bnd_def emit_def print_line_def)
next
  case Undecodable
  then show ?thesis
    by (simp add: run_command_def run_command_events_def subprocess_run_def try_except_def
          run_command_except_def ret_def raise_def bnd_def emit_def print_line_def)
qed

lemma run_command_returns:
  "raised (T command) = None \<Longrightarrow>
     run_command T command description w =
       (Ok (succeeded (T command)),
        w\<lparr>trace := trace w @ run_command_events T command description\<rparr>)"
  by (simp add: run_command_eq)

lemma run_command_raises:
  "raised (T command) = Some e \<Longrightarrow>
     run_command T command description w =
       (Raise e, w\<lparr>trace := trace w @ run_command_events T command description\<rparr>)"
  by (simp add: run_command_eq)

lemma execs_run_command_events [simp]: "execs (run_command_events T c d) = [c]"
  by (simp add: run_command_events_def)

lemma os_mkdir_Inr: "os_mkdir fsy p = Inr fsy' \<Longrightarrow> fsy' = fsy @ [(p, Dir True)] \<and> map_of fsy p = None"
  by (auto simp: os_mkdir_def split: option.splits node.splits if_splits)

lemma mkdir_keeps: "mkdir fsy p parents exist_ok = Inr fsy' \<Longrightarrow> map_of fsy q = Some n \<Longrightarrow> map_of fsy' q = Some n"
proof (induction fsy p parents exist_ok arbitrary: fsy' rule: mkdir.induct)
  case (1 fsy p parents exist_ok)
  show ?case
  proof (cases "os_mkdir fsy p")
    case (Inr f1)
    with "1.prems" have "fsy' = f1" by (simp add: mkdir.simps)
    with Inr os_mkdir_Inr[OF Inr] "1.prems" show ?thesis by (simp add: map_add_Some_iff)
  next
    case (Inl e)
    show ?thesis
    proof (cases e)
      case (FileNotFoundError x)
      with Inl "1.prems"(1) have np: "\<not> (\<not> parents \<or> p = [])"
        by (auto simp: mkdir.simps[of fsy p] split: if_splits)
      from Inl FileNotFoundError np "1.prems"(1) obtain f1 where
        f1: "mkdir fsy (butlast p) True True = Inr f1" and f2: "mkdir f1 p False exist_ok = Inr fsy'"
        by (auto simp: mkdir.simps[of fsy p] split: sum.splits if_splits)
      from "1.IH"(1)[OF Inl FileNotFoundError np f1 "1.prems"(2)] have "map_of f1 q = Some n" .
      from "1.IH"(2)[OF Inl FileNotFoundError np f1 f2 this] show ?thesis .
    next
      case (NotADirectoryError x)
      with Inl "1.prems" show ?thesis by (auto simp: mkdir.simps[of fsy p] split: if_splits)
    next
      case (FileExistsError x)
      with Inl "1.prems" show ?thesis by (auto simp: mkdir.simps[of fsy p] split: if_splits)
    next
      case (PermissionError x)
      with Inl "1.prems" show ?thesis by (auto simp: mkdir.simps[of fsy p] split: if_splits)
    next
      case (OtherOSError x)
      with Inl "1.prems" show ?thesis by (auto simp: mkdir.simps[of fsy p] split: if_splits)
    qed
  qed
qed

lemma is_dir_keeps: "mkdir fsy p parents exist_ok = Inr fsy' \<Longrightarrow> is_dir fsy q \<Longrightarrow> is_dir fsy' q"
  by (auto simp: is_dir_def split: option.splits node.splits dest: mkdir_keeps)

lemma mkdir_makes: "mkdir fsy p parents exist_ok = Inr fsy' \<Longrightarrow> is_dir fsy' p"
proof (induction fsy p parents exist_ok arbitrary: fsy' rule: mkdir.induct)
  case (1 fsy p parents exist_ok)
  show ?case
  proof (cases "os_mkdir fsy p")
    case (Inr f1)
    with "1.prems" have "fsy' = f1" by (simp add: mkdir.simps)
    with os_mkdir_Inr[OF Inr] show ?thesis by (simp add: is_dir_def map_add_def)
  next
    case (Inl e)
    show ?thesis
    proof (cases e)
      case (FileNotFoundError x)
      with Inl "1.prems"(1) have np: "\<not> (\<not> parents \<or> p = [])"
        by (auto simp: mkdir.simps[of fsy p] split: if_splits)
      from Inl FileNotFoundError np "1.prems"(1) obtain f1 where
        f1: "mkdir fsy (butlast p) True True = Inr f1" and f2: "mkdir f1 p False exist_ok = Inr fsy'"
        by (auto simp: mkdir.simps[of fsy p] split: sum.splits if_splits)
      from "1.IH"(2)[OF Inl FileNotFoundError np f1 f2] show ?thesis .
    next
      case (NotADirectoryError x)
      with Inl "1.prems" show ?thesis by (auto simp: mkdir.simps[of fsy p] split: if_splits)
    next
      case (FileExistsError x)
      with Inl "1.prems" show ?thesis by (auto simp: mkdir.simps[of fsy p] split: if_splits)
    next
      case (PermissionError x)
      with Inl "1.prems" show ?thesis by (auto simp: mkdir.simps[of fsy p] split: if_splits)
    next
      case (OtherOSError x)
      with Inl "1.prems" show ?thesis by (auto simp: mkdir.simps[of fsy p] split: if_splits)
    qed
  qed
qed

lemma mkdir_existing: "is_dir fsy p \<Longrightarrow> mkdir fsy p parents True = Inr fsy"
  by (auto simp: mkdir.simps[of fsy p] os_mkdir_def is_dir_def split: option.splits node.splits)

lemma ensure_dirs_keeps: "ensure_dirs fsy ds = Inr fsy' \<Longrightarrow> is_dir fsy q \<Longrightarrow> is_dir fsy' q"
  by (induction ds arbitrary: fsy) (auto split: sum.splits dest: is_dir_keeps)

lemma ensure_dirs_makes: "ensure_dirs fsy ds = Inr fsy' \<Longrightarrow> d \<in> set ds \<Longrightarrow> is_dir fsy' d"
  by (induction ds arbitrary: fsy) (auto split: sum.splits dest: mkdir_makes ensure_dirs_keeps)

lemma ensure_dirs_existing: "\<forall>d\<in>set ds. is_dir fsy d \<Longrightarrow> ensure_dirs fsy ds = Inr fsy"
  by (induction ds) (auto simp: mkdir_existing)

lemma ensure_dirs_idem: "ensure_dirs fsy ds = Inr fsy' \<Longrightarrow> ensure_dirs fsy' ds = Inr fsy'"
  by (rule ensure_dirs_existing) (auto dest: ensure_dirs_makes)

lemma mkdir_prog_ok:
  "mkdir (fsys w) d True True = Inr fsy' \<Longrightarrow>
     mkdir_parents_exist_ok d w = (Ok (), w\<lparr>fsys := fsy', trace := trace w @ [MakeDir d]\<rparr>)"
  by (simp add: mkdir_parents_exist_ok_def)

lemma mkdir_prog_fail:
  "mkdir (fsys w) d True True = Inl e \<Longrightarrow> mkdir_parents_exist_ok d w = (Raise (OSError e), w)"
  by (simp add: mkdir_parents_exist_ok_def)

lemma execs_run_steps: "execs (run_steps T (zip cs ds)) = invoked T (take (length ds) cs)"
proof (induction cs arbitrary: ds)
  case Nil
  then show ?case by simp
next
  case (Cons c cs)
  then show ?case by (cases ds) simp_all
qed

lemma process_glb_file_ok:
  assumes "ensure_dirs (fsys w) (file_stage_dirs base_dir input_file) = Inr fsy'"
  shows "process_glb_file T input_file base_dir w =
           ((case steps_raised T (file_cmds base_dir input_file) of
               None \<Rightarrow> Ok (file_ok T base_dir input_file)
             | Some e \<Rightarrow> Raise e),
            w\<lparr>fsys := fsy', trace := trace w @ file_events T base_dir input_file\<rparr>)"
proof -
  let ?r = "parent (stage_output base_dir ''resize'' input_file)"
  let ?p = "parent (stage_output base_dir ''webp'' input_file)"
  let ?d = "parent (stage_output base_dir ''draco'' input_file)"
  let ?c1 = "resize_cmd input_file (stage_output base_dir ''resize'' input_file)"
  let ?c2 = "webp_cmd (stage_output base_dir ''resize'' input_file)
               (stage_output base_dir ''webp'' input_file)"
  let ?c3 = "draco_cmd (stage_output base_dir ''webp'' input_file)
               (stage_output base_dir ''draco'' input_file)"
  from assms obtain f1 f2 where
    m1: "mkdir (fsys w) ?r True True = Inr f1" and
    m2: "mkdir f1 ?p True True = Inr f2" and
    m3: "mkdir f2 ?d True True = Inr fsy'"
    by (auto simp: file_stage_dirs_def split: sum.splits)
  note defs = bnd_def mkdir_parents_exist_ok_def m1 m2 m3 run_command_eq ret_def
    print_line_def emit_def file_events_def header_def file_stage_dirs_def file_cmds_def
    descriptions_def file_ok_def succeeded_raised
  show ?thesis
  proof (cases "succeeded (T ?c1)")
    case False
    then show ?thesis
      unfolding process_glb_file_def Let_def
      by (cases "raised (T ?c1)") (simp_all add: defs)
  next
    case s1: True
    show ?thesis
    proof (cases "succeeded (T ?c2)")
      case False
      with s1 show ?thesis
        unfolding process_glb_file_def Let_def
        by (cases "raised (T ?c2)") (simp_all add: defs)
    next
      case s2: True
      show ?thesis
      proof (cases "succeeded (T ?c3)")
        case False
        with s1 s2 show ?thesis
          unfolding process_glb_file_def Let_def
          by (cases "raised (T ?c3)") (simp_all add: defs)
      next
        case True
        with s1 s2 show ?thesis
          unfolding process_glb_file_def Let_def
          by (simp add: defs)
      qed
    qed
  qed
qed

lemma process_glb_file_returns:
  assumes "ensure_dirs (fsys w) (file_stage_dirs base_dir input_file) = Inr fsy'"
    and "completes T base_dir input_file"
  shows "process_glb_file T input_file base_dir w =
           (Ok (file_ok T base_dir input_file),
            w\<lparr>fsys := fsy', trace := trace w @ file_events T base_dir input_file\<rparr>)"
  using assms(2) by (simp add: process_glb_file_ok[OF assms(1)] completes_def)

lemma process_glb_file_raises:
  assumes "ensure_dirs (fsys w) (file_stage_dirs base_dir input_file) = Inr fsy'"
    and "steps_raised T (file_cmds base_dir input_file) = Some e"
  shows "process_glb_file T input_file base_dir w =
           (Raise e, w\<lparr>fsys := fsy', trace := trace w @ file_events T base_dir input_file\<rparr>)"
  using assms(2) by (simp add: process_glb_file_ok[OF assms(1)])

lemma file_ok_completes: "file_ok T base_dir f \<Longrightarrow> completes T base_dir f"
  by (simp add: file_ok_def completes_def file_cmds_def succeeded_raised)

lemma steps_raised_exit_status: "steps_raised T cs = Some e \<Longrightarrow> exit_status (Raise e) = 1"
  by (induction cs) (auto split: if_splits dest: raised_exit_status)

lemma process_glb_file_fail:
  assumes "ensure_dirs (fsys w) (file_stage_dirs base_dir input_file) = Inl e"
  shows "\<exists>w'. process_glb_file T input_file base_dir w = (Raise (OSError e), w')
           \<and> execs (trace w') = execs (trace w)
           \<and> printed (trace w') = printed (trace w) @ [BlankRule, Processing (name input_file), Rule]"
proof -
  let ?r = "parent (stage_output base_dir ''resize'' input_file)"
  let ?p = "parent (stage_output base_dir ''webp'' input_file)"
  let ?d = "parent (stage_output base_dir ''draco'' input_file)"
  consider (a) "mkdir (fsys w) ?r True True = Inl e"
    | (b) f1 where "mkdir (fsys w) ?r True True = Inr f1" "mkdir f1 ?p True True = Inl e"
    | (c) f1 f2 where "mkdir (fsys w) ?r True True = Inr f1" "mkdir f1 ?p True True = Inr f2"
        "mkdir f2 ?d True True = Inl e"
    using assms by (auto simp: file_stage_dirs_def split: sum.splits)
  then show ?thesis
  proof cases
    case a
    then show ?thesis
      unfolding process_glb_file_def Let_def
      by (simp add: bnd_def mkdir_parents_exist_ok_def print_line_def emit_def)
  next
    case b
    then show ?thesis
      unfolding process_glb_file_def Let_def
      by (simp add: bnd_def mkdir_parents_exist_ok_def print_line_def emit_def)
  next
    case c
    then show ?thesis
      unfolding process_glb_file_def Let_def
      by (simp add: bnd_def mkdir_parents_exist_ok_def print_line_def emit_def)
  qed
qed

lemma lower_char_dot: "lower_char c = CHR ''.'' \<longleftrightarrow> c = CHR ''.''"
proof
  assume a: "lower_char c = CHR ''.''"
  show "c = CHR ''.''"
  proof (cases "65 \<le> (of_char c :: nat) \<and> (of_char c :: nat) \<le> 90")
    case True
    with a have "char_of (of_char c + 32 :: nat) = CHR ''.''"
      by (simp add: lower_char_def Let_def)
    then have "(of_char (char_of (of_char c + 32 :: nat)) :: nat) = of_char CHR ''.''"
      by simp
    with True show ?thesis by simp
  next
    case False
    with a show ?thesis by (auto simp: lower_char_def Let_def)
  qed
next
  assume "c = CHR ''.''"
  then show "lower_char c = CHR ''.''" by (simp add: lower_char_def)
qed

lemma rfind_last: "c \<notin> set post \<Longrightarrow> rfind (pre @ c # post) c = int (length pre)"
proof -
  assume "c \<notin> set post"
  then have "dropWhile (\<lambda>x. x \<noteq> c) (rev post @ c # rev pre) = dropWhile (\<lambda>x. x \<noteq> c) (c # rev pre)"
    by (intro dropWhile_append2) auto
  then show ?thesis by (simp add: rfind_def)
qed

lemma list_of_length4: "length e = 4 \<Longrightarrow> \<exists>a b c d. e = [a, b, c, d]"
  by (auto simp: eval_nat_numeral length_Suc_conv)

lemma lower_length: "length (lower s) = length s"
  by (simp add: lower_def)

lemma glb_len: "lower s = ''.glb'' \<Longrightarrow> length s = 4"
  using lower_length[of s] by simp
lemma glb_chars:
  assumes "lower [c0, c1, c2, c3] = ''.glb''"
  shows "c0 = CHR ''.'' \<and> c1 \<noteq> CHR ''.'' \<and> c2 \<noteq> CHR ''.'' \<and> c3 \<noteq> CHR ''.''"
proof -
  from assms have l: "lower_char c0 = CHR ''.''" "lower_char c1 = CHR ''g''"
    "lower_char c2 = CHR ''l''" "lower_char c3 = CHR ''b''"
    by (simp_all add: lower_def)
  have d: "lower_char CHR ''.'' = CHR ''.''" by (simp add: lower_char_dot)
  from l(1) have "c0 = CHR ''.''" by (simp add: lower_char_dot)
  moreover from l(2) d have "c1 \<noteq> CHR ''.''" by auto
  moreover from l(3) d have "c2 \<noteq> CHR ''.''" by auto
  moreover from l(4) d have "c3 \<noteq> CHR ''.''" by auto
  ultimately show ?thesis by blast
qed

lemma glb_suffix_fwd:
  assumes a: "lower (suffix p) = ''.glb''"
  shows "has_asset_extension (name p)"
proof -
  define nm where "nm = name p"
  define i where "i = rfind nm CHR ''.''"
  from a have l4: "length (suffix p) = 4" by (rule glb_len)
  then have ne: "suffix p \<noteq> []" by auto
  have sdef: "suffix p = (if 0 < i \<and> i < int (length nm) - 1 then drop (nat i) nm else [])"
    by (simp add: suffix_def Let_def nm_def i_def)
  with ne have c: "0 < i" "i < int (length nm) - 1" and s: "suffix p = drop (nat i) nm"
    by (simp_all split: if_splits)
  from l4 s have "length nm - nat i = 4" by simp
  with c have "4 < length nm" "nat i = length nm - 4" by linarith+
  with s have "4 < length nm" "suffix p = drop (length nm - 4) nm" by simp_all
  with a show ?thesis by (simp add: has_asset_extension_def nm_def)
qed

lemma glb_suffix_bwd:
  assumes h: "has_asset_extension (name p)"
  shows "lower (suffix p) = ''.glb''"
proof -
  define nm where "nm = name p"
  define pre where "pre = take (length nm - 4) nm"
  define e where "e = drop (length nm - 4) nm"
  from h have len: "4 < length nm" and le: "lower e = ''.glb''"
    by (simp_all add: has_asset_extension_def nm_def e_def)
  from le have "length e = 4" by (rule glb_len)
  then obtain c0 c1 c2 c3 where e4: "e = [c0, c1, c2, c3]"
    using list_of_length4 by blast
  from le e4 have ch: "c0 = CHR ''.'' \<and> c1 \<noteq> CHR ''.'' \<and> c2 \<noteq> CHR ''.'' \<and> c3 \<noteq> CHR ''.''"
    using glb_chars by blast
  have "nm = pre @ e" by (simp add: pre_def e_def)
  with e4 ch have nm: "nm = pre @ CHR ''.'' # [c1, c2, c3]" by simp
  have "CHR ''.'' \<notin> set [c1, c2, c3]" using ch by auto
  then have "rfind (pre @ CHR ''.'' # [c1, c2, c3]) CHR ''.'' = int (length pre)"
    by (rule rfind_last)
  with nm have "rfind nm CHR ''.'' = int (length pre)" by simp
  moreover have "length pre = length nm - 4" by (simp add: pre_def)
  ultimately have i: "rfind nm CHR ''.'' = int (length nm - 4)" by simp
  have "suffix p = (if 0 < rfind nm CHR ''.'' \<and> rfind nm CHR ''.'' < int (length nm) - 1
                    then drop (nat (rfind nm CHR ''.'')) nm else [])"
    by (simp add: suffix_def Let_def nm_def)
  also have "\<dots> = e"
  proof -
    have "nat (int (length nm) - 4) = length nm - 4" by linarith
    with len show ?thesis by (simp add: i e_def)
  qed
  finally show ?thesis using le by simp
qed

lemma glb_suffix_iff: "lower (suffix p) = ''.glb'' \<longleftrightarrow> has_asset_extension (name p)"
  using glb_suffix_fwd glb_suffix_bwd by blast

lemma sibling_le: "(d @ [a] \<le> d @ [b]) \<longleftrightarrow> (a \<le> b)" for a b :: "'a :: linorder"
  by (induction d) auto

lemma sorted_names:
  assumes "\<forall>p\<in>set ps. p \<noteq> [] \<and> butlast p = d" "sorted ps"
  shows "sorted (map name ps)"
proof -
  have "sorted_wrt (\<lambda>p q. name p \<le> name q) ps"
  proof (rule sorted_wrt_mono_rel[OF _ assms(2)])
    fix p q assume pq: "p \<in> set ps" "q \<in> set ps" "p \<le> q"
    with assms(1) have ne: "p \<noteq> []" "q \<noteq> []" and b: "butlast p = d" "butlast q = d" by auto
    from ne b have "p = d @ [last p]" "q = d @ [last q]"
      using append_butlast_last_id by metis+
    with pq(3) have "last p \<le> last q" using sibling_le by metis
    with ne show "name p \<le> name q" by (simp add: name_def)
  qed
  then show ?thesis by (simp add: sorted_map)
qed

lemma for_each_collect:
  "for_each ps get_glb_files_body acc w = (Ok (acc @ filter (matches (fsys w)) ps), w)"
  by (induction ps arbitrary: acc)
     (simp_all add: ret_def get_glb_files_body_def bnd_def is_file_path_def matches_def)

lemma get_glb_files_ok:
  "listdir (fsys w) d = Inr ps \<Longrightarrow>
     get_glb_files d w =
       (Ok (sort (filter (matches (fsys w)) ps)), w\<lparr>trace := trace w @ [ListDir d]\<rparr>)"
  by (simp add: get_glb_files_def iterdir_def bnd_def emit_def for_each_collect ret_def)

lemma get_glb_files_fail:
  "listdir (fsys w) d = Inl e \<Longrightarrow>
     get_glb_files d w = (Raise (OSError e), w\<lparr>trace := trace w @ [ListDir d]\<rparr>)"
  by (simp add: get_glb_files_def iterdir_def bnd_def emit_def)

lemma listdir_is_dir: "is_dir fsy d \<Longrightarrow> listdir fsy d = Inr (children fsy d)"
  by (auto simp: is_dir_def listdir_def split: option.splits node.splits)

lemma listdir_Inr: "listdir fsy d = Inr ps \<Longrightarrow> ps = children fsy d \<and> is_dir fsy d"
  by (auto simp: is_dir_def listdir_def split: option.splits node.splits)

lemma children_props: "p \<in> set (children fsy d) \<Longrightarrow> p \<noteq> [] \<and> butlast p = d"
  by (auto simp: children_def)

lemma distinct_children: "distinct (children fsy d)"
  by (simp add: children_def)

lemma valid_name_stage_dirs:
  "name f \<noteq> [] \<Longrightarrow> name f \<noteq> ''.'' \<Longrightarrow> file_stage_dirs script_dir f = stage_dirs script_dir"
  by (simp add: file_stage_dirs_def stage_dirs_def stage_output_def joinpath_def parent_def
        butlast_append)

lemma asset_name_valid: "has_asset_extension nm \<Longrightarrow> nm \<noteq> [] \<and> nm \<noteq> ''.''"
  by (auto simp: has_asset_extension_def)

lemma matches_stage_dirs: "matches fsy f \<Longrightarrow> file_stage_dirs script_dir f = stage_dirs script_dir"
  using asset_name_valid glb_suffix_iff valid_name_stage_dirs by (auto simp: matches_def)

lemma discovered_stage_dirs:
  "f \<in> set (discovered script_dir fsy) \<Longrightarrow> file_stage_dirs script_dir f = stage_dirs script_dir"
  by (auto simp: discovered_def intro: matches_stage_dirs)

lemma list_loop:
  "for_each gs main_list_body u w =
     (Ok (), w\<lparr>trace := trace w @ map (\<lambda>f. Print (Item (name f))) gs\<rparr>)"
  by (induction gs arbitrary: w u)
     (simp_all add: ret_def main_list_body_def bnd_def print_line_def emit_def)

lemma main_process_body_ok:
  assumes "ensure_dirs (fsys w) (file_stage_dirs script_dir f) = Inr fsy'"
    and "completes T script_dir f"
  shows "main_process_body T script_dir f (s, fl) w =
           (Ok (if file_ok T script_dir f then (s + 1, fl) else (s, fl + 1)),
            w\<lparr>fsys := fsy', trace := trace w @ file_trace T script_dir f\<rparr>)"
  by (simp add: main_process_body_def bnd_def process_glb_file_returns[OF assms] ret_def
        print_line_def emit_def file_trace_def)

lemma main_process_body_raises:
  assumes "ensure_dirs (fsys w) (file_stage_dirs script_dir f) = Inr fsy'"
    and "steps_raised T (file_cmds script_dir f) = Some e"
  shows "main_process_body T script_dir f c w =
           (Raise e, w\<lparr>fsys := fsy', trace := trace w @ file_events T script_dir f\<rparr>)"
  by (simp add: main_process_body_def bnd_def process_glb_file_raises[OF assms])

lemma for_each_append:
  "for_each (xs @ ys) body s = bnd (for_each xs body s) (for_each ys body)"
  by (induction xs arbitrary: s) (auto simp: bnd_def fun_eq_iff split: prod.splits result.splits)

lemma process_loop:
  assumes "ensure_dirs (fsys w) D = Inr fsy'"
    and "\<forall>f\<in>set gs. file_stage_dirs script_dir f = D"
    and "\<forall>f\<in>set gs. completes T script_dir f"
  shows "for_each gs (main_process_body T script_dir) (s, fl) w =
           (Ok (s + successes T script_dir gs, fl + failures T script_dir gs),
            w\<lparr>fsys := (if gs = [] then fsys w else fsy'),
              trace := trace w @ concat (map (file_trace T script_dir) gs)\<rparr>)"
  using assms
proof (induction gs arbitrary: w s fl)
  case Nil
  then show ?case by (simp add: ret_def successes_def failures_def)
next
  case (Cons f gs)
  let ?w1 = "w\<lparr>fsys := fsy', trace := trace w @ file_trace T script_dir f\<rparr>"
  from Cons.prems have e: "ensure_dirs (fsys w) (file_stage_dirs script_dir f) = Inr fsy'"
    by simp
  have e1: "ensure_dirs (fsys ?w1) D = Inr fsy'"
    using ensure_dirs_idem[OF Cons.prems(1)] by simp
  from Cons.prems(2) have d: "\<forall>f\<in>set gs. file_stage_dirs script_dir f = D" by simp
  from Cons.prems(3) have c: "completes T script_dir f"
    and cs: "\<forall>f\<in>set gs. completes T script_dir f" by simp_all
  show ?case
  proof (cases "file_ok T script_dir f")
    case True
    then show ?thesis
      by (simp add: bnd_def main_process_body_ok[OF e c] Cons.IH[OF e1 d cs]
            successes_def failures_def)
  next
    case False
    then show ?thesis
      by (simp add: bnd_def main_process_body_ok[OF e c] Cons.IH[OF e1 d cs]
            successes_def failures_def)
  qed
qed

lemma process_loop_raises:
  assumes e: "ensure_dirs (fsys w) D = Inr fsy'"
    and d: "\<forall>g\<in>set (pre @ [f]). file_stage_dirs script_dir g = D"
    and c: "\<forall>g\<in>set pre. completes T script_dir g"
    and r: "steps_raised T (file_cmds script_dir f) = Some ex"
  shows "for_each (pre @ f # post) (main_process_body T script_dir) (s, fl) w =
           (Raise ex,
            w\<lparr>fsys := fsy',
              trace := trace w @ concat (map (file_trace T script_dir) pre)
                       @ file_events T script_dir f\<rparr>)"
proof -
  let ?w1 = "w\<lparr>fsys := (if pre = [] then fsys w else fsy'),
               trace := trace w @ concat (map (file_trace T script_dir) pre)\<rparr>"
  from d have dp: "\<forall>g\<in>set pre. file_stage_dirs script_dir g = D"
    and df: "file_stage_dirs script_dir f = D" by simp_all
  have l: "for_each pre (main_process_body T script_dir) (s, fl) w =
             (Ok (s + successes T script_dir pre, fl + failures T script_dir pre), ?w1)"
    by (rule process_loop[OF e dp c])
  have "ensure_dirs (fsys ?w1) D = Inr fsy'"
    using e ensure_dirs_idem[OF e] by simp
  with df have e1: "ensure_dirs (fsys ?w1) (file_stage_dirs script_dir f) = Inr fsy'" by simp
  show ?thesis
    by (simp add: for_each_append bnd_def l main_process_body_raises[OF e1 r])
qed

lemma process_loop_fail:
  assumes "ensure_dirs (fsys w) (file_stage_dirs script_dir f) = Inl e"
  shows "\<exists>w'. for_each (f # rest) (main_process_body T script_dir) c w = (Raise (OSError e), w')
           \<and> execs (trace w') = execs (trace w)
           \<and> printed (trace w') = printed (trace w) @ [BlankRule, Processing (name f), Rule]"
proof -
  from process_glb_file_fail[OF assms] obtain w' where
    "process_glb_file T f script_dir w = (Raise (OSError e), w')"
    "execs (trace w') = execs (trace w)"
    "printed (trace w') = printed (trace w) @ [BlankRule, Processing (name f), Rule]"
    by blast
  then show ?thesis by (simp add: bnd_def main_process_body_def)
qed

lemma main_no_imports:
  assumes "\<not> path_exists (fsys w) (imports_of script_dir)"
  shows "main T script_dir w =
           (Raise (SystemExit 1),
            w\<lparr>trace := trace w @ [Print (ImportsNotFound (imports_of script_dir))]\<rparr>)"
  using assms
  by (simp add: main_def Let_def bnd_def exists_path_def imports_of_def print_line_def emit_def
        raise_def)

lemma main_listdir_fail:
  assumes "path_exists (fsys w) (imports_of script_dir)"
    and "listdir (fsys w) (imports_of script_dir) = Inl e"
  shows "main T script_dir w =
           (Raise (OSError e), w\<lparr>trace := trace w @ [ListDir (imports_of script_dir)]\<rparr>)"
proof -
  have g: "get_glb_files (joinpath (joinpath script_dir ''data'') ''imports'') w =
             (Raise (OSError e), w\<lparr>trace := trace w @ [ListDir (imports_of script_dir)]\<rparr>)"
    using get_glb_files_fail[OF assms(2)] by (simp add: imports_of_def)
  show ?thesis
    using assms(1)
    by (simp add: main_def Let_def bnd_def exists_path_def g imports_of_def)
qed

lemma get_glb_files_discovered:
  assumes "is_dir (fsys w) (imports_of script_dir)"
  shows "get_glb_files (imports_of script_dir) w =
           (Ok (discovered script_dir (fsys w)),
            w\<lparr>trace := trace w @ [ListDir (imports_of script_dir)]\<rparr>)"
  using get_glb_files_ok[OF listdir_is_dir[OF assms]]
  by (simp add: discovered_def)

lemma is_dir_exists: "is_dir fsy d \<Longrightarrow> path_exists fsy d"
  by (auto simp: is_dir_def path_exists_def split: option.splits)

lemma main_nothing_to_do:
  assumes "is_dir (fsys w) (imports_of script_dir)"
    and "discovered script_dir (fsys w) = []"
  shows "main T script_dir w =
           (Raise (SystemExit 0),
            w\<lparr>trace := trace w @ [ListDir (imports_of script_dir), Print NoFiles]\<rparr>)"
  using is_dir_exists[OF assms(1)] assms(2)
  by (simp add: main_def Let_def bnd_def exists_path_def get_glb_files_discovered[OF assms(1)]
        print_line_def emit_def raise_def imports_of_def[symmetric])

lemma main_processed:
  assumes d: "is_dir (fsys w) (imports_of script_dir)"
    and ne: "discovered script_dir (fsys w) \<noteq> []"
    and e: "ensure_dirs (fsys w) (stage_dirs script_dir) = Inr fsy'"
    and c: "\<forall>f\<in>set (discovered script_dir (fsys w)). completes T script_dir f"
  shows "main T script_dir w =
           ((if failures T script_dir (discovered script_dir (fsys w)) = 0 then Ok ()
             else Raise (SystemExit 1)),
            w\<lparr>fsys := fsy',
              trace := trace w @ run_trace T script_dir (discovered script_dir (fsys w))\<rparr>)"
proof -
  let ?gs = "discovered script_dir (fsys w)"
  let ?w2 = "w\<lparr>trace := trace w @ [ListDir (imports_of script_dir), Print (Found (length ?gs))]
                @ map (\<lambda>f. Print (Item (name f))) ?gs\<rparr>"
  have e2: "ensure_dirs (fsys ?w2) (stage_dirs script_dir) = Inr fsy'" using e by simp
  have sd: "\<forall>f\<in>set ?gs. file_stage_dirs script_dir f = stage_dirs script_dir"
    using discovered_stage_dirs by blast
  have loop: "for_each ?gs (main_process_body T script_dir) (0, 0) ?w2 =
                (Ok (successes T script_dir ?gs, failures T script_dir ?gs),
                 ?w2\<lparr>fsys := fsy', trace := trace ?w2 @ concat (map (file_trace T script_dir) ?gs)\<rparr>)"
    using process_loop[OF e2 sd c, of 0 0] ne by simp
  show ?thesis
    using is_dir_exists[OF d] ne loop
    by (simp add: main_def Let_def bnd_def exists_path_def get_glb_files_discovered[OF d]
          print_line_def emit_def raise_def imports_of_def[symmetric] list_loop
          run_trace_def summary_def)
qed

text \<open>
  A run in which the commands of some file raise: the run ends with the
  exception of the first such file, after the files before it.
\<close>

lemma main_raises:
  assumes d: "is_dir (fsys w) (imports_of script_dir)"
    and gs: "discovered script_dir (fsys w) = pre @ f # post"
    and e: "ensure_dirs (fsys w) (stage_dirs script_dir) = Inr fsy'"
    and c: "\<forall>g\<in>set pre. completes T script_dir g"
    and r: "steps_raised T (file_cmds script_dir f) = Some ex"
  shows "main T script_dir w =
           (Raise ex,
            w\<lparr>fsys := fsy',
              trace := trace w
                @ [ListDir (imports_of script_dir), Print (Found (length (pre @ f # post)))]
                @ map (\<lambda>f. Print (Item (name f))) (pre @ f # post)
                @ concat (map (file_trace T script_dir) pre)
                @ file_events T script_dir f\<rparr>)"
proof -
  let ?gs = "pre @ f # post"
  let ?w2 = "w\<lparr>trace := trace w @ [ListDir (imports_of script_dir), Print (Found (length ?gs))]
                @ map (\<lambda>f. Print (Item (name f))) ?gs\<rparr>"
  have e2: "ensure_dirs (fsys ?w2) (stage_dirs script_dir) = Inr fsy'" using e by simp
  have "\<forall>g\<in>set (discovered script_dir (fsys w)).
          file_stage_dirs script_dir g = stage_dirs script_dir"
    using discovered_stage_dirs by blast
  with gs have sd: "\<forall>g\<in>set (pre @ [f]). file_stage_dirs script_dir g = stage_dirs script_dir"
    by simp
  have loop: "for_each ?gs (main_process_body T script_dir) (0, 0) ?w2 =
                (Raise ex,
                 ?w2\<lparr>fsys := fsy',
                     trace := trace ?w2 @ concat (map (file_trace T script_dir) pre)
                              @ file_events T script_dir f\<rparr>)"
    by (rule process_loop_raises[OF e2 sd c r])
  have g: "get_glb_files (imports_of script_dir) w =
             (Ok ?gs, w\<lparr>trace := trace w @ [ListDir (imports_of script_dir)]\<rparr>)"
    using get_glb_files_discovered[OF d] gs by simp
  show ?thesis
    using is_dir_exists[OF d] loop
    by (simp add: main_def Let_def bnd_def exists_path_def g
          print_line_def emit_def imports_of_def[symmetric] list_loop)
qed

lemma first_raising:
  assumes "\<not> (\<forall>f\<in>set gs. completes T script_dir f)"
  shows "\<exists>pre f post ex. gs = pre @ f # post \<and> (\<forall>g\<in>set pre. completes T script_dir g)
           \<and> steps_raised T (file_cmds script_dir f) = Some ex"
proof -
  from assms have "\<exists>f\<in>set gs. \<not> completes T script_dir f" by blast
  then obtain pre f post where
    "gs = pre @ f # post" "\<not> completes T script_dir f" "\<forall>g\<in>set pre. \<not> \<not> completes T script_dir g"
    using split_list_first_prop[of gs "\<lambda>f. \<not> completes T script_dir f"] by blast
  then show ?thesis by (auto simp: completes_def)
qed

lemma main_mkdir_fail:
  assumes d: "is_dir (fsys w) (imports_of script_dir)"
    and ne: "discovered script_dir (fsys w) \<noteq> []"
    and e: "ensure_dirs (fsys w) (stage_dirs script_dir) = Inl err"
  shows "\<exists>w'. main T script_dir w = (Raise (OSError err), w')
           \<and> execs (trace w') = execs (trace w)
           \<and> printed (trace w') =
               printed (trace w) @ [Found (length (discovered script_dir (fsys w)))]
               @ map (\<lambda>f. Item (name f)) (discovered script_dir (fsys w))
               @ [BlankRule, Processing (name (hd (discovered script_dir (fsys w)))), Rule]"
proof -
  let ?gs = "discovered script_dir (fsys w)"
  let ?w2 = "w\<lparr>trace := trace w @ [ListDir (imports_of script_dir), Print (Found (length ?gs))]
                @ map (\<lambda>f. Print (Item (name f))) ?gs\<rparr>"
  from ne obtain f rest where gs: "?gs = f # rest" by (cases ?gs) auto
  then have "f \<in> set ?gs" by simp
  then have "file_stage_dirs script_dir f = stage_dirs script_dir"
    by (rule discovered_stage_dirs)
  with e have "ensure_dirs (fsys ?w2) (file_stage_dirs script_dir f) = Inl err" by simp
  from process_loop_fail[OF this, of rest T "(0, 0)"] obtain w' where
    l: "for_each (f # rest) (main_process_body T script_dir) (0, 0) ?w2 = (Raise (OSError err), w')"
    and x: "execs (trace w') = execs (trace ?w2)"
    and p: "printed (trace w') = printed (trace ?w2) @ [BlankRule, Processing (name f), Rule]"
    by blast
  have pm: "printed (map (\<lambda>f. Print (Item (name f))) xs) = map (\<lambda>f. Item (name f)) xs" for xs
    by (induction xs) simp_all
  have xm: "execs (map (\<lambda>f. Print (Item (name f))) xs) = []" for xs
    by (induction xs) simp_all
  have "main T script_dir w = (Raise (OSError err), w')"
    using is_dir_exists[OF d] ne l
    by (simp add: main_def Let_def bnd_def exists_path_def get_glb_files_discovered[OF d]
          print_line_def emit_def imports_of_def[symmetric] list_loop gs[symmetric])
  moreover have "execs (trace w') = execs (trace w)" using x by (simp add: xm)
  moreover have "printed (trace w') =
               printed (trace w) @ [Found (length ?gs)] @ map (\<lambda>f. Item (name f)) ?gs
               @ [BlankRule, Processing (name (hd ?gs)), Rule]"
    using p gs by (simp add: pm)
  ultimately show ?thesis by blast
qed

lemma get_glb_files_Ok:
  assumes "fst (get_glb_files d w) = Ok gs"
  shows "is_dir (fsys w) d \<and> gs = sort (filter (matches (fsys w)) (children (fsys w) d))"
proof (cases "listdir (fsys w) d")
  case (Inl e)
  with assms show ?thesis by (simp add: get_glb_files_fail)
next
  case (Inr ps)
  with assms listdir_Inr[OF Inr] show ?thesis by (simp add: get_glb_files_ok)
qed

lemma get_glb_files_imports:
  "fst (get_glb_files (imports_of script_dir) w) = Ok gs \<longleftrightarrow>
     is_dir (fsys w) (imports_of script_dir) \<and> gs = discovered script_dir (fsys w)"
  using get_glb_files_Ok[of "imports_of script_dir" w gs]
    get_glb_files_discovered[of w script_dir]
  by (auto simp: discovered_def)

lemma failures_zero: "failures T script_dir gs = 0 \<longleftrightarrow> (\<forall>f\<in>set gs. file_ok T script_dir f)"
  by (auto simp: failures_def filter_empty_conv)

lemma successes_failures: "successes T script_dir gs + failures T script_dir gs = length gs"
  by (simp add: successes_def failures_def sum_length_filter_compl)

lemma execs_file_events: "execs (file_events T base_dir f) = invoked T (file_cmds base_dir f)"
proof -
  have "execs (map MakeDir ds) = []" for ds by (induction ds) simp_all
  moreover have "length (descriptions f) = 3" "length (file_cmds base_dir f) = 3"
    by (simp_all add: descriptions_def file_cmds_def)
  ultimately show ?thesis
    by (simp add: file_events_def header_def execs_run_steps)
qed

lemma listdir_not_dir: "\<not> is_dir fsy d \<Longrightarrow> \<exists>e. listdir fsy d = Inl e"
  by (auto simp: is_dir_def listdir_def split: option.splits node.splits)

lemma exit_status_cases:
  "exit_status (fst (main T script_dir w)) =
     (if is_dir (fsys w) (imports_of script_dir)
         \<and> (discovered script_dir (fsys w) = []
             \<or> (\<exists>fsy'. ensure_dirs (fsys w) (stage_dirs script_dir) = Inr fsy')
               \<and> failures T script_dir (discovered script_dir (fsys w)) = 0)
      then 0 else 1)"
proof (cases "is_dir (fsys w) (imports_of script_dir)")
  case False
  show ?thesis
  proof (cases "path_exists (fsys w) (imports_of script_dir)")
    case True
    from listdir_not_dir[OF False] obtain e where "listdir (fsys w) (imports_of script_dir) = Inl e"
      by blast
    from main_listdir_fail[OF True this, of T] False show ?thesis by simp
  next
    case no: False
    from main_no_imports[OF no, of T] False show ?thesis by simp
  qed
next
  case d: True
  show ?thesis
  proof (cases "discovered script_dir (fsys w) = []")
    case True
    from main_nothing_to_do[OF d True, of T] d True show ?thesis by simp
  next
    case ne: False
    show ?thesis
    proof (cases "ensure_dirs (fsys w) (stage_dirs script_dir)")
      case (Inl err)
      from main_mkdir_fail[OF d ne Inl, of T] obtain w' where
        "main T script_dir w = (Raise (OSError err), w')" by blast
      with d ne Inl show ?thesis by simp
    next
      case (Inr fsy')
      show ?thesis
      proof (cases "\<forall>f\<in>set (discovered script_dir (fsys w)). completes T script_dir f")
        case True
        from main_processed[OF d ne Inr True] d ne Inr show ?thesis by simp
      next
        case False
        from first_raising[OF False] obtain pre f post ex where
          gs: "discovered script_dir (fsys w) = pre @ f # post"
          and c: "\<forall>g\<in>set pre. completes T script_dir g"
          and r: "steps_raised T (file_cmds script_dir f) = Some ex"
          by blast
        from False have "failures T script_dir (discovered script_dir (fsys w)) \<noteq> 0"
          using file_ok_completes by (auto simp: failures_zero)
        with main_raises[OF d gs Inr c r] steps_raised_exit_status[OF r] d ne Inr
        show ?thesis by simp
      qed
    qed
  qed
qed

lemma raised_not_exit: "raised r = Some e \<Longrightarrow> e \<noteq> SystemExit n"
  by (cases r rule: raised.cases) auto

lemma steps_raised_not_exit: "steps_raised T cs = Some e \<Longrightarrow> e \<noteq> SystemExit n"
  by (induction cs) (auto split: if_splits dest: raised_not_exit)

lemma invoked_raised:
  "c \<in> set (invoked T cs) \<Longrightarrow> raised (T c) = Some e \<Longrightarrow> steps_raised T cs = Some e"
proof (induction cs)
  case Nil
  then show ?case by simp
next
  case (Cons c' cs)
  from Cons.prems(2) have n: "\<not> succeeded (T c)" using succeeded_raised by fastforce
  show ?case
  proof (cases "succeeded (T c')")
    case True
    with n have "c \<noteq> c'" by auto
    with Cons True show ?thesis by simp
  next
    case False
    with Cons.prems show ?thesis by simp
  qed
qed

lemma main_aborts:
  assumes d: "is_dir (fsys w) (imports_of script_dir)"
    and f: "f \<in> set (discovered script_dir (fsys w))"
    and c: "\<not> completes T script_dir f"
  shows "\<exists>e. fst (main T script_dir w) = Raise e \<and> (\<forall>n. e \<noteq> SystemExit n)
           \<and> exit_status (fst (main T script_dir w)) = 1"
proof (cases "ensure_dirs (fsys w) (stage_dirs script_dir)")
  case (Inl err)
  from f have ne: "discovered script_dir (fsys w) \<noteq> []" by auto
  from main_mkdir_fail[OF d ne Inl, of T] show ?thesis by auto
next
  case (Inr fsy')
  from f c have "\<not> (\<forall>f\<in>set (discovered script_dir (fsys w)). completes T script_dir f)"
    by blast
  from first_raising[OF this] obtain pre g post ex where
    gs: "discovered script_dir (fsys w) = pre @ g # post"
    and cp: "\<forall>g\<in>set pre. completes T script_dir g"
    and r: "steps_raised T (file_cmds script_dir g) = Some ex"
    by blast
  from main_raises[OF d gs Inr cp r] steps_raised_exit_status[OF r] steps_raised_not_exit[OF r]
  show ?thesis by simp
qed

lemma main_fsys:
  assumes d: "is_dir (fsys w) (imports_of script_dir)"
    and ne: "discovered script_dir (fsys w) \<noteq> []"
    and e: "ensure_dirs (fsys w) (stage_dirs script_dir) = Inr fsy'"
  shows "fsys (snd (main T script_dir w)) = fsy'"
proof (cases "\<forall>f\<in>set (discovered script_dir (fsys w)). completes T script_dir f")
  case True
  from main_processed[OF d ne e True] show ?thesis by simp
next
  case False
  from first_raising[OF False] obtain pre f post ex where
    gs: "discovered script_dir (fsys w) = pre @ f # post"
    and c: "\<forall>g\<in>set pre. completes T script_dir g"
    and r: "steps_raised T (file_cmds script_dir f) = Some ex"
    by blast
  from main_raises[OF d gs e c r] show ?thesis by simp
qed

text \<open>Facts about the example runs, by evaluation.\<close>

lemma demo_imports: "imports_of demo_dir = [''srv'', ''data'', ''imports'']"
  by (simp add: imports_of_def demo_dir_def joinpath_def)

lemma demo_imports_dir: "is_dir demo_fs (imports_of demo_dir)"
  by code_simp

lemma demo_stage_dirs: "ensure_dirs demo_fs (stage_dirs demo_dir) = Inr demo_fs_after"
  by code_simp

lemma demo_file_stage_dirs:
  "file_stage_dirs demo_dir demo_a = stage_dirs demo_dir"
  "file_stage_dirs demo_dir demo_b = stage_dirs demo_dir"
  by code_simp+

lemma demo_discovered: "discovered demo_dir demo_fs = [demo_a, demo_b]"
  by code_simp

lemma demo_file_ok: "file_ok demo_tool demo_dir demo_a" "\<not> file_ok demo_tool demo_dir demo_b"
  by code_simp+

lemma demo_good_ok: "file_ok good_tool demo_dir f"
  by (simp add: file_ok_def good_tool_def file_cmds_def)

lemma demo_completes: "completes demo_tool demo_dir f"
  by (simp add: completes_def demo_tool_def file_cmds_def)

lemma missing_completes:
  "completes missing_tool demo_dir f" "\<not> file_ok missing_tool demo_dir f"
  by (simp_all add: completes_def file_ok_def missing_tool_def file_cmds_def)

lemma blocked_imports_dir: "is_dir (fsys blocked_world) (imports_of demo_dir)"
  by code_simp

lemma blocked_discovered: "discovered demo_dir (fsys blocked_world) = [demo_a, demo_b]"
  by code_simp

lemma blocked_stage_dirs:
  "ensure_dirs (fsys blocked_world) (stage_dirs demo_dir) =
     Inl (NotADirectoryError [''srv'', ''data'', ''exports'', ''resize''])"
  by code_simp

lemma idle_imports_dir: "is_dir (fsys idle_world) (imports_of demo_dir)"
  by code_simp

lemma idle_discovered: "discovered demo_dir (fsys idle_world) = []"
  by code_simp

section \<open>The claims\<close>

subsection \<open>C1: a stage directory that cannot be created\<close>

text \<open>
  C1, as stated, says that after a failure to create a stage directory the
  orchestrator goes on to process the remaining files. No exception of
  \<open>mkdir\<close> is caught, in \<open>process_glb_file\<close> or in \<open>main\<close>. Where \<open>data/exports\<close> is a
  regular file and the input directory holds \<open>a.GLB\<close> and \<open>b.glb\<close>, the run ends
  with the error raised while \<open>a.GLB\<close> is processed: \<open>b.glb\<close> is never started,
  and no command is run.
\<close>

theorem C1_counterexample:
  "fst (get_glb_files (imports_of demo_dir) blocked_world) = Ok [demo_a, demo_b]
   \<and> ensure_dirs (fsys blocked_world) (stage_dirs demo_dir) =
       Inl (NotADirectoryError [''srv'', ''data'', ''exports'', ''resize''])
   \<and> fst (main good_tool demo_dir blocked_world) =
       Raise (OSError (NotADirectoryError [''srv'', ''data'', ''exports'', ''resize'']))
   \<and> printed (trace (snd (main good_tool demo_dir blocked_world))) =
       [Found 2, Item ''a.GLB'', Item ''b.glb'', BlankRule, Processing ''a.GLB'', Rule]
   \<and> Processing ''b.glb'' \<notin> set (printed (trace (snd (main good_tool demo_dir blocked_world))))
   \<and> execs (trace (snd (main good_tool demo_dir blocked_world))) = []"
proof -
  have g: "fst (get_glb_files (imports_of demo_dir) blocked_world) = Ok [demo_a, demo_b]"
    using blocked_imports_dir blocked_discovered by (simp add: get_glb_files_imports)
  have ne: "discovered demo_dir (fsys blocked_world) \<noteq> []"
    by (simp add: blocked_discovered)
  have t: "trace blocked_world = []" by (simp add: blocked_world_def)
  have n: "name demo_a = ''a.GLB''" "name demo_b = ''b.glb''"
    by (simp_all add: name_def demo_a_def demo_b_def)
  from main_mkdir_fail[OF blocked_imports_dir ne blocked_stage_dirs, of good_tool]
  obtain w' where
    m: "main good_tool demo_dir blocked_world =
          (Raise (OSError (NotADirectoryError [''srv'', ''data'', ''exports'', ''resize''])), w')"
    and x: "execs (trace w') = execs (trace blocked_world)"
    and p: "printed (trace w') =
              printed (trace blocked_world)
              @ [Found (length (discovered demo_dir (fsys blocked_world)))]
              @ map (\<lambda>f. Item (name f)) (discovered demo_dir (fsys blocked_world))
              @ [BlankRule, Processing (name (hd (discovered demo_dir (fsys blocked_world)))), Rule]"
    by blast
  from p have p': "printed (trace w') =
      [Found 2, Item ''a.GLB'', Item ''b.glb'', BlankRule, Processing ''a.GLB'', Rule]"
    by (simp add: blocked_discovered t n)
  from g blocked_stage_dirs m x p' t show ?thesis by simp
qed

text \<open>
  C1, amended. If creating one of the stage directories fails, then for every
  discovered file the per-file pipeline raises that error before it runs any
  command, and the error is not caught by the orchestrator: the run ends with
  it while the first file is processed, with exit status \<open>1\<close>, having run no
  command, started no other file and printed no summary.
\<close>

theorem C1_directory_failure_aborts_run:
  assumes "fst (get_glb_files (imports_of script_dir) w) = Ok gs"
    and "gs \<noteq> []"
    and "ensure_dirs (fsys w) (stage_dirs script_dir) = Inl err"
  shows "fst (main T script_dir w) = Raise (OSError err)
         \<and> exit_status (fst (main T script_dir w)) = 1
         \<and> execs (trace (snd (main T script_dir w))) = execs (trace w)
         \<and> printed (trace (snd (main T script_dir w))) =
             printed (trace w) @ [Found (length gs)] @ map (\<lambda>f. Item (name f)) gs
             @ [BlankRule, Processing (name (hd gs)), Rule]
         \<and> (\<forall>f\<in>set gs. \<forall>w1. fsys w1 = fsys w \<longrightarrow>
              fst (process_glb_file T f script_dir w1) = Raise (OSError err)
              \<and> execs (trace (snd (process_glb_file T f script_dir w1))) = execs (trace w1))"
proof -
  from assms(1) have d: "is_dir (fsys w) (imports_of script_dir)"
    and gs: "gs = discovered script_dir (fsys w)"
    by (simp_all add: get_glb_files_imports)
  from assms(2) gs have ne: "discovered script_dir (fsys w) \<noteq> []" by simp
  from main_mkdir_fail[OF d ne assms(3), of T] gs
  have m: "fst (main T script_dir w) = Raise (OSError err)
         \<and> exit_status (fst (main T script_dir w)) = 1
         \<and> execs (trace (snd (main T script_dir w))) = execs (trace w)
         \<and> printed (trace (snd (main T script_dir w))) =
             printed (trace w) @ [Found (length gs)] @ map (\<lambda>f. Item (name f)) gs
             @ [BlankRule, Processing (name (hd gs)), Rule]"
    by auto
  have "fst (process_glb_file T f script_dir w1) = Raise (OSError err)
        \<and> execs (trace (snd (process_glb_file T f script_dir w1))) = execs (trace w1)"
    if "f \<in> set gs" "fsys w1 = fsys w" for f w1
  proof -
    from that(1) gs have "file_stage_dirs script_dir f = stage_dirs script_dir"
      using discovered_stage_dirs by blast
    with assms(3) that(2)
    have "ensure_dirs (fsys w1) (file_stage_dirs script_dir f) = Inl err" by simp
    from process_glb_file_fail[OF this, of T] show ?thesis by auto
  qed
  with m show ?thesis by blast
qed

theorem C1_directory_failure_aborts_run_witness:
  "fst (get_glb_files (imports_of demo_dir) blocked_world) = Ok [demo_a, demo_b]
   \<and> ensure_dirs (fsys blocked_world) (stage_dirs demo_dir) =
       Inl (NotADirectoryError [''srv'', ''data'', ''exports'', ''resize''])
   \<and> exit_status (fst (main demo_tool demo_dir blocked_world)) = 1
   \<and> execs (trace (snd (main demo_tool demo_dir blocked_world))) = []
   \<and> fst (process_glb_file demo_tool demo_b demo_dir blocked_world) =
       Raise (OSError (NotADirectoryError [''srv'', ''data'', ''exports'', ''resize'']))"
proof -
  have g: "fst (get_glb_files (imports_of demo_dir) blocked_world) = Ok [demo_a, demo_b]"
    using blocked_imports_dir blocked_discovered by (simp add: get_glb_files_imports)
  have t: "trace blocked_world = []" by (simp add: blocked_world_def)
  from C1_directory_failure_aborts_run[OF g _ blocked_stage_dirs, of demo_tool] g
    blocked_stage_dirs t
  show ?thesis by simp
qed

subsection \<open>C2: the exit status\<close>

text \<open>
  C2. The exit status of a run is \<open>0\<close> exactly when discovery returns a list of
  files and either the list is empty or every file of it is processed
  successfully: the stage directories can be created and each of the three
  commands of each file succeeds. In every other case it is \<open>1\<close>; in
  particular when the imports directory does not exist, and when some
  discovered file has a failing command.
\<close>

theorem C2_exit_status:
  "(exit_status (fst (main T script_dir w)) = 0 \<longleftrightarrow>
      (\<exists>gs. fst (get_glb_files (imports_of script_dir) w) = Ok gs
         \<and> (gs = []
            \<or> (\<exists>fsy'. ensure_dirs (fsys w) (stage_dirs script_dir) = Inr fsy')
              \<and> (\<forall>f\<in>set gs. file_ok T script_dir f))))
   \<and> (exit_status (fst (main T script_dir w)) = 0
      \<or> exit_status (fst (main T script_dir w)) = 1)
   \<and> (\<not> path_exists (fsys w) (imports_of script_dir) \<longrightarrow>
        exit_status (fst (main T script_dir w)) = 1)
   \<and> (fst (get_glb_files (imports_of script_dir) w) = Ok files
        \<and> (\<exists>f\<in>set files. \<not> file_ok T script_dir f) \<longrightarrow>
        exit_status (fst (main T script_dir w)) = 1)"
proof -
  have a: "exit_status (fst (main T script_dir w)) = 0 \<longleftrightarrow>
      (\<exists>gs. fst (get_glb_files (imports_of script_dir) w) = Ok gs
         \<and> (gs = []
            \<or> (\<exists>fsy'. ensure_dirs (fsys w) (stage_dirs script_dir) = Inr fsy')
              \<and> (\<forall>f\<in>set gs. file_ok T script_dir f)))"
    by (simp add: exit_status_cases get_glb_files_imports failures_zero)
  have b: "exit_status (fst (main T script_dir w)) = 0
      \<or> exit_status (fst (main T script_dir w)) = 1"
    by (simp add: exit_status_cases)
  have c: "exit_status (fst (main T script_dir w)) = 1"
    if "\<not> path_exists (fsys w) (imports_of script_dir)"
    using that is_dir_exists by (auto simp: exit_status_cases)
  have d: "exit_status (fst (main T script_dir w)) = 1"
    if "fst (get_glb_files (imports_of script_dir) w) = Ok files"
      "\<exists>f\<in>set files. \<not> file_ok T script_dir f"
    using that a b by auto
  from a b c d show ?thesis by blast
qed

theorem C2_exit_status_witness:
  "fst (get_glb_files (imports_of demo_dir) demo_world) = Ok [demo_a, demo_b]
   \<and> ensure_dirs (fsys demo_world) (stage_dirs demo_dir) = Inr demo_fs_after
   \<and> exit_status (fst (main good_tool demo_dir demo_world)) = 0
   \<and> \<not> file_ok demo_tool demo_dir demo_b
   \<and> exit_status (fst (main demo_tool demo_dir demo_world)) = 1"
proof -
  have g: "fst (get_glb_files (imports_of demo_dir) demo_world) = Ok [demo_a, demo_b]"
    using demo_imports_dir demo_discovered
    by (simp add: get_glb_files_imports demo_world_def)
  have e: "ensure_dirs (fsys demo_world) (stage_dirs demo_dir) = Inr demo_fs_after"
    by (simp add: demo_world_def demo_stage_dirs)
  have "\<exists>gs. fst (get_glb_files (imports_of demo_dir) demo_world) = Ok gs
         \<and> (gs = []
            \<or> (\<exists>fsy'. ensure_dirs (fsys demo_world) (stage_dirs demo_dir) = Inr fsy')
              \<and> (\<forall>f\<in>set gs. file_ok good_tool demo_dir f))"
    using g e demo_good_ok by blast
  then have z: "exit_status (fst (main good_tool demo_dir demo_world)) = 0"
    using C2_exit_status[of good_tool demo_dir demo_world] by blast
  have "fst (get_glb_files (imports_of demo_dir) demo_world) = Ok [demo_a, demo_b]
        \<and> (\<exists>f\<in>set [demo_a, demo_b]. \<not> file_ok demo_tool demo_dir f)"
    using g demo_file_ok(2) by simp
  then have o: "exit_status (fst (main demo_tool demo_dir demo_world)) = 1"
    using C2_exit_status[of demo_tool demo_dir demo_world "[demo_a, demo_b]"] by blast
  from g e z o demo_file_ok(2) show ?thesis by blast
qed

subsection \<open>C3: the summary\<close>

text \<open>
  C3, as stated, speaks of the final summary of every run over \<open>K\<close> discovered
  files. A run that discovers no file prints no summary: it prints the line
  \<open>NoFiles\<close> and ends through \<open>sys.exit(0)\<close>.
\<close>

theorem C3_counterexample:
  "fst (get_glb_files (imports_of demo_dir) idle_world) = Ok []
   \<and> printed (trace (snd (main good_tool demo_dir idle_world))) = [NoFiles]
   \<and> TotalFiles 0 \<notin> set (printed (trace (snd (main good_tool demo_dir idle_world))))
   \<and> exit_status (fst (main good_tool demo_dir idle_world)) = 0"
proof -
  have g: "fst (get_glb_files (imports_of demo_dir) idle_world) = Ok []"
    using idle_imports_dir idle_discovered by (simp add: get_glb_files_imports)
  have t: "trace idle_world = []" by (simp add: idle_world_def)
  from main_nothing_to_do[OF idle_imports_dir idle_discovered, of good_tool] g t
  show ?thesis by simp
qed

text \<open>
  C3, amended. For every run over \<open>K \<ge> 1\<close> discovered files in which each file
  is processed to its end (the stage directories can be created, and no
  exception leaves a command that is run), of which \<open>F\<close> have a failing command:
  the lines printed end with the summary, which
  reports the total \<open>K\<close>, \<open>K - F\<close> successful and \<open>F\<close> failed (followed by the line
  \<open>AllOk\<close> when \<open>F = 0\<close>); the two counters add up to \<open>K\<close>; and the exit status is
  \<open>0\<close> exactly when \<open>F = 0\<close>. A run over no file prints the line \<open>NoFiles\<close> and no
  summary, and its exit status is \<open>0\<close>.
\<close>

theorem C3_summary_counts:
  assumes "fst (get_glb_files (imports_of script_dir) w) = Ok gs"
  shows "(gs \<noteq> [] \<and> ensure_dirs (fsys w) (stage_dirs script_dir) = Inr fsy'
           \<and> (\<forall>f\<in>set gs. completes T script_dir f) \<longrightarrow>
           (\<exists>before. printed (trace (snd (main T script_dir w))) =
              before
              @ [BlankRule, SummaryTitle, Rule, TotalFiles (length gs),
                 Successful (length gs - failures T script_dir gs),
                 Failed (failures T script_dir gs)]
              @ (if failures T script_dir gs = 0 then [AllOk] else []))
           \<and> successes T script_dir gs = length gs - failures T script_dir gs
           \<and> successes T script_dir gs + failures T script_dir gs = length gs
           \<and> (exit_status (fst (main T script_dir w)) = 0 \<longleftrightarrow> failures T script_dir gs = 0))
         \<and> (gs = [] \<longrightarrow>
              printed (trace (snd (main T script_dir w))) = printed (trace w) @ [NoFiles]
              \<and> exit_status (fst (main T script_dir w)) = 0)"
proof -
  from assms have d: "is_dir (fsys w) (imports_of script_dir)"
    and gs: "gs = discovered script_dir (fsys w)"
    by (simp_all add: get_glb_files_imports)
  have sf: "successes T script_dir gs + failures T script_dir gs = length gs"
    by (rule successes_failures)
  then have s: "successes T script_dir gs = length gs - failures T script_dir gs" by simp
  have pm: "printed (map Print ls) = ls" for ls by (induction ls) simp_all
  have one: "(\<exists>before. printed (trace (snd (main T script_dir w))) =
              before
              @ [BlankRule, SummaryTitle, Rule, TotalFiles (length gs),
                 Successful (length gs - failures T script_dir gs),
                 Failed (failures T script_dir gs)]
              @ (if failures T script_dir gs = 0 then [AllOk] else []))
           \<and> (exit_status (fst (main T script_dir w)) = 0 \<longleftrightarrow> failures T script_dir gs = 0)"
    if ne: "gs \<noteq> []" and e: "ensure_dirs (fsys w) (stage_dirs script_dir) = Inr fsy'"
      and c: "\<forall>f\<in>set gs. completes T script_dir f"
  proof -
    from ne gs have ne': "discovered script_dir (fsys w) \<noteq> []" by simp
    from c gs have c': "\<forall>f\<in>set (discovered script_dir (fsys w)). completes T script_dir f"
      by simp
    let ?before = "printed (trace w @ [ListDir (imports_of script_dir), Print (Found (length gs))]
        @ map (\<lambda>f. Print (Item (name f))) gs @ concat (map (file_trace T script_dir) gs))"
    have "printed (trace (snd (main T script_dir w))) =
            ?before @ summary T script_dir gs
            @ (if failures T script_dir gs = 0 then [AllOk] else [])"
      by (simp add: main_processed[OF d ne' e c'] gs[symmetric] run_trace_def pm)
    then have "printed (trace (snd (main T script_dir w))) =
            ?before
            @ [BlankRule, SummaryTitle, Rule, TotalFiles (length gs),
               Successful (length gs - failures T script_dir gs),
               Failed (failures T script_dir gs)]
            @ (if failures T script_dir gs = 0 then [AllOk] else [])"
      by (simp add: summary_def s)
    then have "\<exists>before. printed (trace (snd (main T script_dir w))) =
            before
            @ [BlankRule, SummaryTitle, Rule, TotalFiles (length gs),
               Successful (length gs - failures T script_dir gs),
               Failed (failures T script_dir gs)]
            @ (if failures T script_dir gs = 0 then [AllOk] else [])"
      by blast
    moreover have "exit_status (fst (main T script_dir w)) = 0 \<longleftrightarrow> failures T script_dir gs = 0"
      by (simp add: main_processed[OF d ne' e c'] gs[symmetric])
    ultimately show ?thesis by blast
  qed
  have two: "printed (trace (snd (main T script_dir w))) = printed (trace w) @ [NoFiles]
              \<and> exit_status (fst (main T script_dir w)) = 0"
    if "gs = []"
    using that gs main_nothing_to_do[OF d, of T] by simp
  from one two s sf show ?thesis by blast
qed

theorem C3_summary_counts_witness:
  "fst (get_glb_files (imports_of demo_dir) demo_world) = Ok [demo_a, demo_b]
   \<and> ensure_dirs (fsys demo_world) (stage_dirs demo_dir) = Inr demo_fs_after
   \<and> completes demo_tool demo_dir demo_a \<and> completes demo_tool demo_dir demo_b
   \<and> failures demo_tool demo_dir [demo_a, demo_b] = 1
   \<and> (\<exists>before. printed (trace (snd (main demo_tool demo_dir demo_world))) =
          before @ [BlankRule, SummaryTitle, Rule, TotalFiles 2, Successful 1, Failed 1])
   \<and> exit_status (fst (main demo_tool demo_dir demo_world)) \<noteq> 0"
proof -
  have g: "fst (get_glb_files (imports_of demo_dir) demo_world) = Ok [demo_a, demo_b]"
    using demo_imports_dir demo_discovered
    by (simp add: get_glb_files_imports demo_world_def)
  have e: "ensure_dirs (fsys demo_world) (stage_dirs demo_dir) = Inr demo_fs_after"
    by (simp add: demo_world_def demo_stage_dirs)
  have f: "failures demo_tool demo_dir [demo_a, demo_b] = 1"
    by (simp add: failures_def demo_file_ok)
  from C3_summary_counts[OF g, of demo_fs_after demo_tool] e f demo_completes
  have "(\<exists>before. printed (trace (snd (main demo_tool demo_dir demo_world))) =
          before @ [BlankRule, SummaryTitle, Rule, TotalFiles 2, Successful 1, Failed 1])
        \<and> exit_status (fst (main demo_tool demo_dir demo_world)) \<noteq> 0"
    by (simp add: numeral_2_eq_2)
  with g e f demo_completes show ?thesis by blast
qed

subsection \<open>C4: the order of the steps\<close>



subsection \<open>C5: the step executor\<close>

text \<open>
  C5, as stated, says that when the tool cannot be started at all the executor
  prints the tool-unavailable message and returns failure, without aborting
  the run. \<open>run_command\<close> catches \<open>FileNotFoundError\<close> and no other error of
  starting a process. Where the executable is there and may not be executed,
  \<open>subprocess.run\<close> raises \<open>PermissionError\<close>, \<open>run_command\<close> raises it in turn
  without printing the message, and the run ends with it while the first file
  is processed: the second file is never started and no summary is printed.
\<close>

theorem C5_counterexample:
  "denied_tool [''gltf-transform'', ''resize'', ''/srv/data/imports/a.GLB'',
       ''/srv/data/exports/resize/a.GLB'', ''--width'', ''1024'', ''--height'', ''1024''] =
     StartFailed (PermissionError [''gltf-transform''])
   \<and> run_command denied_tool
        [''gltf-transform'', ''resize'', ''/srv/data/imports/a.GLB'',
         ''/srv/data/exports/resize/a.GLB'', ''--width'', ''1024'', ''--height'', ''1024'']
        ''Resize a.GLB'' demo_world =
       (Raise (OSError (PermissionError [''gltf-transform''])),
        demo_world\<lparr>trace :=
          [Print (Running ''Resize a.GLB''),
           Print (Command ''gltf-transform resize /srv/data/imports/a.GLB /srv/data/exports/resize/a.GLB --width 1024 --height 1024''),
           Exec [''gltf-transform'', ''resize'', ''/srv/data/imports/a.GLB'',
                 ''/srv/data/exports/resize/a.GLB'', ''--width'', ''1024'', ''--height'', ''1024'']]\<rparr>)
   \<and> fst (main denied_tool demo_dir demo_world) =
       Raise (OSError (PermissionError [''gltf-transform'']))
   \<and> printed (trace (snd (main denied_tool demo_dir demo_world))) =
       [Found 2, Item ''a.GLB'', Item ''b.glb'', BlankRule, Processing ''a.GLB'', Rule,
        Running ''Resize a.GLB'',
        Command ''gltf-transform resize /srv/data/imports/a.GLB /srv/data/exports/resize/a.GLB --width 1024 --height 1024'']
   \<and> exit_status (fst (main denied_tool demo_dir demo_world)) = 1"
proof -
  let ?c = "[''gltf-transform'', ''resize'', ''/srv/data/imports/a.GLB'',
             ''/srv/data/exports/resize/a.GLB'', ''--width'', ''1024'', ''--height'', ''1024'']"
  have t: "denied_tool ?c = StartFailed (PermissionError [''gltf-transform''])"
    by (simp add: denied_tool_def)
  have j: "join_space ?c =
      ''gltf-transform resize /srv/data/imports/a.GLB /srv/data/exports/resize/a.GLB --width 1024 --height 1024''"
    by simp
  have r: "run_command denied_tool ?c ''Resize a.GLB'' demo_world =
       (Raise (OSError (PermissionError [''gltf-transform''])),
        demo_world\<lparr>trace :=
          [Print (Running ''Resize a.GLB''),
           Print (Command ''gltf-transform resize /srv/data/imports/a.GLB /srv/data/exports/resize/a.GLB --width 1024 --height 1024''),
           Exec ?c]\<rparr>)"
    by (simp add: run_command_eq run_command_events_def t j demo_world_def)
  have d: "is_dir (fsys demo_world) (imports_of demo_dir)"
    by (simp add: demo_world_def demo_imports_dir)
  have gs: "discovered demo_dir (fsys demo_world) = [] @ demo_a # [demo_b]"
    by (simp add: demo_world_def demo_discovered)
  have e: "ensure_dirs (fsys demo_world) (stage_dirs demo_dir) = Inr demo_fs_after"
    by (simp add: demo_world_def demo_stage_dirs)
  have s: "steps_raised denied_tool (file_cmds demo_dir demo_a) =
             Some (OSError (PermissionError [''gltf-transform'']))"
    by (simp add: file_cmds_def denied_tool_def)
  have fe: "printed (file_events denied_tool demo_dir demo_a) =
      [BlankRule, Processing ''a.GLB'', Rule, Running ''Resize a.GLB'',
       Command ''gltf-transform resize /srv/data/imports/a.GLB /srv/data/exports/resize/a.GLB --width 1024 --height 1024'']"
    by code_simp
  have n: "name demo_a = ''a.GLB''" "name demo_b = ''b.glb''"
    by (simp_all add: name_def demo_a_def demo_b_def)
  have tw: "trace demo_world = []" by (simp add: demo_world_def)
  have m: "main denied_tool demo_dir demo_world =
      (Raise (OSError (PermissionError [''gltf-transform''])),
       demo_world\<lparr>fsys := demo_fs_after,
         trace := trace demo_world
           @ [ListDir (imports_of demo_dir), Print (Found (length ([] @ demo_a # [demo_b])))]
           @ map (\<lambda>f. Print (Item (name f))) ([] @ demo_a # [demo_b])
           @ concat (map (file_trace denied_tool demo_dir) [])
           @ file_events denied_tool demo_dir demo_a\<rparr>)"
    by (rule main_raises[OF d gs e _ s]) simp
  have p: "printed (trace (snd (main denied_tool demo_dir demo_world))) =
       [Found 2, Item ''a.GLB'', Item ''b.glb'', BlankRule, Processing ''a.GLB'', Rule,
        Running ''Resize a.GLB'',
        Command ''gltf-transform resize /srv/data/imports/a.GLB /srv/data/exports/resize/a.GLB --width 1024 --height 1024'']"
    by (simp add: m fe n tw)
  from t r m p show ?thesis by simp
qed

text \<open>
  C5, amended. \<open>run_command\<close> returns success exactly when the external process
  ran and left the return code \<open>0\<close>. When the return code is not \<open>0\<close> it prints the
  failure, the return code and the captured output and error streams (each
  when not empty, stripped) and returns failure. When the executable is not
  found (the \<open>FileNotFoundError\<close> of \<open>subprocess.run\<close>) it prints the line
  \<open>ToolNotFound\<close>, which it prints in no other case, and returns failure. In
  these cases it does not raise. It raises exactly when the process cannot be
  started for another reason, or when what the process wrote cannot be decoded:
  then it has printed nothing after the command line, and the exception is
  caught nowhere: a run in which this happens for a command of a discovered
  file ends with an exception, with exit status \<open>1\<close>. In every case the command
  is handed to \<open>subprocess.run\<close> exactly once.
\<close>

theorem C5_run_command:
  "(fst (run_command T command description w) = Ok True
      \<longleftrightarrow> (\<exists>out err. T command = Completed 0 out err))
   \<and> (T command = Completed returncode out err \<and> returncode \<noteq> 0 \<longrightarrow>
        fst (run_command T command description w) = Ok False
        \<and> printed (trace (snd (run_command T command description w))) =
            printed (trace w)
            @ [Running description, Command (join_space command),
               ErrorIn description, ReturnCode returncode]
            @ (if out \<noteq> [] then [Stdout (strip out)] else [])
            @ (if err \<noteq> [] then [Stderr (strip err)] else []))
   \<and> (T command = StartFailed (FileNotFoundError p) \<longrightarrow>
        fst (run_command T command description w) = Ok False
        \<and> printed (trace (snd (run_command T command description w))) =
            printed (trace w)
            @ [Running description, Command (join_space command), ToolNotFound])
   \<and> (ToolNotFound \<in> set (drop (length (printed (trace w)))
          (printed (trace (snd (run_command T command description w)))))
        \<longleftrightarrow> (\<exists>q. T command = StartFailed (FileNotFoundError q)))
   \<and> (fst (run_command T command description w) = Raise e
        \<longleftrightarrow> (\<exists>err. T command = StartFailed err \<and> (\<forall>q. err \<noteq> FileNotFoundError q)
                  \<and> e = OSError err)
            \<or> T command = Undecodable \<and> e = UnicodeDecodeError)
   \<and> (fst (run_command T command description w) = Raise e \<longrightarrow>
        printed (trace (snd (run_command T command description w))) =
          printed (trace w) @ [Running description, Command (join_space command)])
   \<and> execs (trace (snd (run_command T command description w))) = execs (trace w) @ [command]
   \<and> (fst (get_glb_files (imports_of script_dir) w0) = Ok gs \<and> input_file \<in> set gs
        \<and> c \<in> set (invoked T (file_cmds script_dir input_file))
        \<and> fst (run_command T c d w1) = Raise e1 \<longrightarrow>
        (\<exists>e2. fst (main T script_dir w0) = Raise e2 \<and> (\<forall>n. e2 \<noteq> SystemExit n))
        \<and> exit_status (fst (main T script_dir w0)) = 1)"
proof -
  have a: "(fst (run_command T command description w) = Ok True
      \<longleftrightarrow> (\<exists>out err. T command = Completed 0 out err))"
    by (cases "T command" rule: raised.cases) (simp_all add: run_command_eq)
  have b: "fst (run_command T command description w) = Ok False
        \<and> printed (trace (snd (run_command T command description w))) =
            printed (trace w)
            @ [Running description, Command (join_space command),
               ErrorIn description, ReturnCode returncode]
            @ (if out \<noteq> [] then [Stdout (strip out)] else [])
            @ (if err \<noteq> [] then [Stderr (strip err)] else [])"
    if "T command = Completed returncode out err" "returncode \<noteq> 0"
    using that by (simp add: run_command_eq run_command_events_def)
  have c: "fst (run_command T command description w) = Ok False
        \<and> printed (trace (snd (run_command T command description w))) =
            printed (trace w)
            @ [Running description, Command (join_space command), ToolNotFound]"
    if "T command = StartFailed (FileNotFoundError p)"
    using that by (simp add: run_command_eq run_command_events_def)
  have d: "ToolNotFound \<in> set (drop (length (printed (trace w)))
          (printed (trace (snd (run_command T command description w)))))
        \<longleftrightarrow> (\<exists>q. T command = StartFailed (FileNotFoundError q))"
    by (cases "T command" rule: raised.cases)
       (auto simp: run_command_eq run_command_events_def)
  have r: "fst (run_command T c d w1) = Raise e1 \<longleftrightarrow> raised (T c) = Some e1" for c d w1 e1
    by (cases "raised (T c)") (simp_all add: run_command_eq)
  have e: "fst (run_command T command description w) = Raise e
        \<longleftrightarrow> (\<exists>err. T command = StartFailed err \<and> (\<forall>q. err \<noteq> FileNotFoundError q)
                  \<and> e = OSError err)
            \<or> T command = Undecodable \<and> e = UnicodeDecodeError"
    unfolding r by (cases "T command" rule: raised.cases) auto
  have f: "printed (trace (snd (run_command T command description w))) =
          printed (trace w) @ [Running description, Command (join_space command)]"
    if "fst (run_command T command description w) = Raise e"
    using that unfolding r
    by (cases "T command" rule: raised.cases)
       (simp_all add: run_command_eq run_command_events_def)
  have g: "execs (trace (snd (run_command T command description w))) =
             execs (trace w) @ [command]"
    by (simp add: run_command_eq)
  have h: "(\<exists>e2. fst (main T script_dir w0) = Raise e2 \<and> (\<forall>n. e2 \<noteq> SystemExit n))
        \<and> exit_status (fst (main T script_dir w0)) = 1"
    if "fst (get_glb_files (imports_of script_dir) w0) = Ok gs" "input_file \<in> set gs"
      "c \<in> set (invoked T (file_cmds script_dir input_file))"
      "fst (run_command T c d w1) = Raise e1"
  proof -
    from that(1) have dir: "is_dir (fsys w0) (imports_of script_dir)"
      and gs: "gs = discovered script_dir (fsys w0)"
      by (simp_all add: get_glb_files_imports)
    from that(4) have "raised (T c) = Some e1" by (simp add: r)
    from invoked_raised[OF that(3) this] have "\<not> completes T script_dir input_file"
      by (simp add: completes_def)
    with main_aborts[OF dir, of input_file T] that(2) gs show ?thesis by blast
  qed
  from a b c d e f g h show ?thesis by blast
qed

theorem C5_run_command_witness:
  "demo_tool [''gltf-transform'', ''webp'', ''/srv/data/exports/resize/b.glb''] =
     Completed 1 ([CHR 0xC2, CHR 0xA0] @ '' partial '') ''bad texture''
   \<and> fst (run_command demo_tool [''gltf-transform'', ''webp'', ''/srv/data/exports/resize/b.glb'']
        ''WebP conversion b.glb'' demo_world) = Ok False
   \<and> printed (trace (snd (run_command demo_tool
        [''gltf-transform'', ''webp'', ''/srv/data/exports/resize/b.glb'']
        ''WebP conversion b.glb'' demo_world))) =
       [Running ''WebP conversion b.glb'',
        Command ''gltf-transform webp /srv/data/exports/resize/b.glb'',
        ErrorIn ''WebP conversion b.glb'', ReturnCode 1,
        Stdout ''partial'', Stderr ''bad texture'']
   \<and> missing_tool [''gltf-transform''] = StartFailed (FileNotFoundError [''gltf-transform''])
   \<and> fst (run_command missing_tool [''gltf-transform''] ''Resize'' demo_world) = Ok False
   \<and> printed (trace (snd (run_command missing_tool [''gltf-transform''] ''Resize'' demo_world))) =
       [Running ''Resize'', Command ''gltf-transform'', ToolNotFound]"
proof -
  have t: "demo_tool [''gltf-transform'', ''webp'', ''/srv/data/exports/resize/b.glb''] =
             Completed 1 ([CHR 0xC2, CHR 0xA0] @ '' partial '') ''bad texture''"
    by (simp add: demo_tool_def)
  have s: "strip ([CHR 0xC2, CHR 0xA0] @ '' partial '') = ''partial''"
    "strip ''bad texture'' = ''bad texture''"
    by code_simp+
  have m: "missing_tool [''gltf-transform''] = StartFailed (FileNotFoundError [''gltf-transform''])"
    by (simp add: missing_tool_def)
  have one: "fst (run_command demo_tool [''gltf-transform'', ''webp'', ''/srv/data/exports/resize/b.glb'']
        ''WebP conversion b.glb'' demo_world) = Ok False
   \<and> printed (trace (snd (run_command demo_tool
        [''gltf-transform'', ''webp'', ''/srv/data/exports/resize/b.glb'']
        ''WebP conversion b.glb'' demo_world))) =
       [Running ''WebP conversion b.glb'',
        Command ''gltf-transform webp /srv/data/exports/resize/b.glb'',
        ErrorIn ''WebP conversion b.glb'', ReturnCode 1,
        Stdout ''partial'', Stderr ''bad texture'']"
    using t C5_run_command[where T = demo_tool
        and command = "[''gltf-transform'', ''webp'', ''/srv/data/exports/resize/b.glb'']"
        and returncode = 1 and out = "[CHR 0xC2, CHR 0xA0] @ '' partial ''"
        and err = "''bad texture''"
        and description = "''WebP conversion b.glb''" and w = demo_world]
    by (simp add: s[simplified] demo_world_def)
  have two: "fst (run_command missing_tool [''gltf-transform''] ''Resize'' demo_world) = Ok False
   \<and> printed (trace (snd (run_command missing_tool [''gltf-transform''] ''Resize'' demo_world))) =
       [Running ''Resize'', Command ''gltf-transform'', ToolNotFound]"
    using m C5_run_command[where T = missing_tool and command = "[''gltf-transform'']"
        and p = "[''gltf-transform'']" and description = "''Resize''" and w = demo_world]
    by (simp add: demo_world_def)
  from t m one two show ?thesis by blast
qed

subsection \<open>C6: discovery\<close>

text \<open>
  C6. On a directory, \<open>get_glb_files\<close> returns a list that holds exactly the
  entries of the directory that are regular files and whose name has the asset
  extension (the name is longer than four characters and ends with \<open>.glb\<close> in
  any letter case): each of them once and nothing else, so the length of the
  list is the number of such entries. The list is in ascending order, which
  for the entries of one directory is the ascending order of their names.
\<close>

theorem C6_discovery:
  assumes "is_dir (fsys w) d"
  shows "\<exists>gs. fst (get_glb_files d w) = Ok gs
           \<and> set gs = {p \<in> set (children (fsys w) d).
                         is_file (fsys w) p \<and> has_asset_extension (name p)}
           \<and> distinct gs
           \<and> length gs = card {p \<in> set (children (fsys w) d).
                                  is_file (fsys w) p \<and> has_asset_extension (name p)}
           \<and> sorted gs \<and> sorted (map name gs)"
proof -
  let ?gs = "sort (filter (matches (fsys w)) (children (fsys w) d))"
  let ?S = "{p \<in> set (children (fsys w) d). is_file (fsys w) p \<and> has_asset_extension (name p)}"
  have g: "fst (get_glb_files d w) = Ok ?gs"
    by (simp add: get_glb_files_ok[OF listdir_is_dir[OF assms]])
  have s: "set ?gs = ?S" by (auto simp: matches_def glb_suffix_iff)
  have di: "distinct ?gs" by (simp add: distinct_children)
  have l: "length ?gs = card ?S" using distinct_card[OF di] s by simp
  have so: "sorted ?gs" by simp
  have "\<forall>p\<in>set ?gs. p \<noteq> [] \<and> butlast p = d" using children_props by auto
  then have sn: "sorted (map name ?gs)" using so by (rule sorted_names)
  from g s di l so sn show ?thesis by blast
qed

theorem C6_discovery_witness:
  "is_dir (fsys demo_world) (imports_of demo_dir)
   \<and> children (fsys demo_world) (imports_of demo_dir) =
       [[''srv'', ''data'', ''imports'', ''b.glb''], [''srv'', ''data'', ''imports'', ''a.GLB''],
        [''srv'', ''data'', ''imports'', ''.glb''], [''srv'', ''data'', ''imports'', ''notes.txt''],
        [''srv'', ''data'', ''imports'', ''c.glb'']]
   \<and> fst (get_glb_files (imports_of demo_dir) demo_world) = Ok [demo_a, demo_b]
   \<and> (\<exists>gs. fst (get_glb_files (imports_of demo_dir) demo_world) = Ok gs
           \<and> set gs = {p \<in> set (children (fsys demo_world) (imports_of demo_dir)).
                         is_file (fsys demo_world) p \<and> has_asset_extension (name p)}
           \<and> distinct gs
           \<and> length gs = card {p \<in> set (children (fsys demo_world) (imports_of demo_dir)).
                                  is_file (fsys demo_world) p \<and> has_asset_extension (name p)}
           \<and> sorted gs \<and> sorted (map name gs))"
proof -
  have i: "is_dir (fsys demo_world) (imports_of demo_dir)"
    using demo_imports_dir by (simp add: demo_world_def)
  have g: "fst (get_glb_files (imports_of demo_dir) demo_world) = Ok [demo_a, demo_b]"
    using demo_imports_dir demo_discovered
    by (simp add: get_glb_files_imports demo_world_def)
  have c: "children (fsys demo_world) (imports_of demo_dir) =
       [[''srv'', ''data'', ''imports'', ''b.glb''], [''srv'', ''data'', ''imports'', ''a.GLB''],
        [''srv'', ''data'', ''imports'', ''.glb''], [''srv'', ''data'', ''imports'', ''notes.txt''],
        [''srv'', ''data'', ''imports'', ''c.glb'']]"
    by code_simp
  show ?thesis
    by (intro conjI i c g C6_discovery[OF i])
qed

subsection \<open>C7: a missing input directory\<close>

text \<open>
  C7. When the imports directory does not exist, \<open>main\<close> prints the error line and
  ends through \<open>sys.exit(1)\<close>: the exit status is \<open>1\<close>. That line is all the run
  does: the directory is not listed, no directory is created, no command is
  run, and the file system is left as it was.
\<close>

theorem C7_missing_imports:
  assumes "\<not> path_exists (fsys w) (imports_of script_dir)"
  shows "main T script_dir w =
           (Raise (SystemExit 1),
            w\<lparr>trace := trace w @ [Print (ImportsNotFound (imports_of script_dir))]\<rparr>)
         \<and> exit_status (fst (main T script_dir w)) = 1
         \<and> execs (trace (snd (main T script_dir w))) = execs (trace w)
         \<and> fsys (snd (main T script_dir w)) = fsys w"
  using main_no_imports[OF assms] by simp

theorem C7_missing_imports_witness:
  "\<not> path_exists (fsys bare_world) (imports_of demo_dir)
   \<and> main good_tool demo_dir bare_world =
       (Raise (SystemExit 1),
        bare_world\<lparr>trace := [Print (ImportsNotFound [''srv'', ''data'', ''imports''])]\<rparr>)
   \<and> exit_status (fst (main good_tool demo_dir bare_world)) = 1
   \<and> execs (trace (snd (main good_tool demo_dir bare_world))) = []"
proof -
  have i: "imports_of demo_dir = [''srv'', ''data'', ''imports'']"
    by (simp add: imports_of_def demo_dir_def joinpath_def)
  have h: "\<not> path_exists (fsys bare_world) (imports_of demo_dir)"
    by (simp add: i bare_world_def path_exists_def)
  show ?thesis
    using h C7_missing_imports[OF h, of good_tool] by (simp add: i bare_world_def)
qed

subsection \<open>C8: the output paths\<close>

text \<open>
  C8. For every file that discovery returns in a run, which lies in
  \<open>data/imports\<close> below the directory of the program: the three output paths are
  the name of the file under \<open>data/exports/resize\<close>, \<open>data/exports/webp\<close> and
  \<open>data/exports/draco\<close> below the directory of the program, and the name of each
  is the name of the input. \<open>process_glb_file\<close> hands these paths to the tool:
  in every world and with every tool, the commands it runs are none when a
  stage directory cannot be created, and otherwise, each being run only if
  those before it succeeded: \<open>resize\<close> from the input file to the resize
  output, \<open>webp\<close> from the resize output to the WebP output, \<open>optimize\<close> from the
  WebP output to the compression output.
\<close>

theorem C8_output_paths:
  assumes "fst (get_glb_files (imports_of script_dir) w0) = Ok gs" and "input_file \<in> set gs"
  shows "input_file = script_dir @ [''data'', ''imports'', name input_file]
         \<and> stage_output script_dir ''resize'' input_file =
           script_dir @ [''data'', ''exports'', ''resize'', name input_file]
         \<and> stage_output script_dir ''webp'' input_file =
           script_dir @ [''data'', ''exports'', ''webp'', name input_file]
         \<and> stage_output script_dir ''draco'' input_file =
           script_dir @ [''data'', ''exports'', ''draco'', name input_file]
         \<and> name (stage_output script_dir ''resize'' input_file) = name input_file
         \<and> name (stage_output script_dir ''webp'' input_file) = name input_file
         \<and> name (stage_output script_dir ''draco'' input_file) = name input_file
         \<and> execs (trace (snd (process_glb_file T input_file script_dir w))) =
             execs (trace w)
             @ (case ensure_dirs (fsys w)
                       [script_dir @ [''data'', ''exports'', ''resize''],
                        script_dir @ [''data'', ''exports'', ''webp''],
                        script_dir @ [''data'', ''exports'', ''draco'']] of
                  Inl err \<Rightarrow> []
                | Inr fsy' \<Rightarrow>
                    invoked T
                      [[''gltf-transform'', ''resize'',
                        concat (map (\<lambda>c. ''/'' @ c) script_dir)
                          @ ''/data/imports/'' @ name input_file,
                        concat (map (\<lambda>c. ''/'' @ c) script_dir)
                          @ ''/data/exports/resize/'' @ name input_file,
                        ''--width'', ''1024'', ''--height'', ''1024''],
                       [''gltf-transform'', ''webp'',
                        concat (map (\<lambda>c. ''/'' @ c) script_dir)
                          @ ''/data/exports/resize/'' @ name input_file,
                        concat (map (\<lambda>c. ''/'' @ c) script_dir)
                          @ ''/data/exports/webp/'' @ name input_file,
                        ''--slots'', ''baseColor''],
                       [''gltf-transform'', ''optimize'',
                        concat (map (\<lambda>c. ''/'' @ c) script_dir)
                          @ ''/data/exports/webp/'' @ name input_file,
                        concat (map (\<lambda>c. ''/'' @ c) script_dir)
                          @ ''/data/exports/draco/'' @ name input_file,
                        ''--texture-compress'', ''webp'']])"
proof -
  from assms have f: "input_file \<in> set (discovered script_dir (fsys w0))"
    by (simp add: get_glb_files_imports)
  then have m: "matches (fsys w0) input_file"
    and ch: "input_file \<in> set (children (fsys w0) (imports_of script_dir))"
    by (simp_all add: discovered_def)
  from m have "has_asset_extension (name input_file)"
    by (simp add: matches_def glb_suffix_iff)
  then have n: "name input_file \<noteq> []" "name input_file \<noteq> ''.''"
    using asset_name_valid by blast+
  from children_props[OF ch] have ne: "input_file \<noteq> []"
    and b: "butlast input_file = imports_of script_dir" by simp_all
  from ne have "input_file = butlast input_file @ [last input_file]" by simp
  with b ne have i: "input_file = script_dir @ [''data'', ''imports'', name input_file]"
    by (simp add: imports_of_def joinpath_def name_def)
  have s: "stage_output script_dir stage input_file =
             script_dir @ [''data'', ''exports'', stage, name input_file]"
    if "stage \<noteq> []" "stage \<noteq> ''.''" for stage
    using n that by (simp add: stage_output_def joinpath_def)
  have o: "stage_output script_dir ''resize'' input_file =
             script_dir @ [''data'', ''exports'', ''resize'', name input_file]"
    "stage_output script_dir ''webp'' input_file =
             script_dir @ [''data'', ''exports'', ''webp'', name input_file]"
    "stage_output script_dir ''draco'' input_file =
             script_dir @ [''data'', ''exports'', ''draco'', name input_file]"
    by (simp_all add: s)
  have sp: "str_path (script_dir @ [x, y, z]) =
              concat (map (\<lambda>c. ''/'' @ c) script_dir) @ ''/'' @ x @ ''/'' @ y @ ''/'' @ z"
    "str_path (script_dir @ [x, y, u, z]) =
              concat (map (\<lambda>c. ''/'' @ c) script_dir) @ ''/'' @ x @ ''/'' @ y @ ''/'' @ u @ ''/'' @ z"
    for x y z u
  proof -
    have sl: "(@) ''/'' = (#) CHR ''/''" by (rule ext) simp
    show "str_path (script_dir @ [x, y, z]) =
              concat (map (\<lambda>c. ''/'' @ c) script_dir) @ ''/'' @ x @ ''/'' @ y @ ''/'' @ z"
      "str_path (script_dir @ [x, y, u, z]) =
              concat (map (\<lambda>c. ''/'' @ c) script_dir) @ ''/'' @ x @ ''/'' @ y @ ''/'' @ u @ ''/'' @ z"
      by (simp_all add: str_path_def sl)
  qed
  have si: "str_path input_file =
              concat (map (\<lambda>c. ''/'' @ c) script_dir) @ ''/data/imports/'' @ name input_file"
    using sp(1)[of "''data''" "''imports''" "name input_file"] i by simp
  have fc: "file_cmds script_dir input_file =
      [[''gltf-transform'', ''resize'',
        concat (map (\<lambda>c. ''/'' @ c) script_dir) @ ''/data/imports/'' @ name input_file,
        concat (map (\<lambda>c. ''/'' @ c) script_dir) @ ''/data/exports/resize/'' @ name input_file,
        ''--width'', ''1024'', ''--height'', ''1024''],
       [''gltf-transform'', ''webp'',
        concat (map (\<lambda>c. ''/'' @ c) script_dir) @ ''/data/exports/resize/'' @ name input_file,
        concat (map (\<lambda>c. ''/'' @ c) script_dir) @ ''/data/exports/webp/'' @ name input_file,
        ''--slots'', ''baseColor''],
       [''gltf-transform'', ''optimize'',
        concat (map (\<lambda>c. ''/'' @ c) script_dir) @ ''/data/exports/webp/'' @ name input_file,
        concat (map (\<lambda>c. ''/'' @ c) script_dir) @ ''/data/exports/draco/'' @ name input_file,
        ''--texture-compress'', ''webp'']]"
    by (simp add: file_cmds_def resize_cmd_def webp_cmd_def draco_cmd_def o sp si)
  have sd: "file_stage_dirs script_dir input_file =
              [script_dir @ [''data'', ''exports'', ''resize''],
               script_dir @ [''data'', ''exports'', ''webp''],
               script_dir @ [''data'', ''exports'', ''draco'']]"
    using discovered_stage_dirs[OF f] by (simp add: stage_dirs_def)
  have x: "execs (trace (snd (process_glb_file T input_file script_dir w))) =
             execs (trace w)
             @ (case ensure_dirs (fsys w) (file_stage_dirs script_dir input_file) of
                  Inl err \<Rightarrow> []
                | Inr fsy' \<Rightarrow> invoked T (file_cmds script_dir input_file))"
  proof (cases "ensure_dirs (fsys w) (file_stage_dirs script_dir input_file)")
    case (Inl err)
    from process_glb_file_fail[OF Inl, of T] Inl show ?thesis by auto
  next
    case (Inr f3)
    from process_glb_file_ok[OF Inr, of T] Inr show ?thesis
      by (simp add: execs_file_events)
  qed
  have nm: "name (script_dir @ [x, y, u, z]) = z" for x y u z
    by (simp add: name_def)
  from i o x show ?thesis
    unfolding fc sd by (simp add: nm)
qed

theorem C8_output_paths_witness:
  "fst (get_glb_files (imports_of demo_dir) demo_world) = Ok [demo_a, demo_b]
   \<and> stage_output demo_dir ''draco'' demo_a = [''srv'', ''data'', ''exports'', ''draco'', ''a.GLB'']
   \<and> execs (trace (snd (process_glb_file demo_tool demo_a demo_dir demo_world))) =
       [[''gltf-transform'', ''resize'', ''/srv/data/imports/a.GLB'',
         ''/srv/data/exports/resize/a.GLB'', ''--width'', ''1024'', ''--height'', ''1024''],
        [''gltf-transform'', ''webp'', ''/srv/data/exports/resize/a.GLB'',
         ''/srv/data/exports/webp/a.GLB'', ''--slots'', ''baseColor''],
        [''gltf-transform'', ''optimize'', ''/srv/data/exports/webp/a.GLB'',
         ''/srv/data/exports/draco/a.GLB'', ''--texture-compress'', ''webp'']]"
proof -
  have g: "fst (get_glb_files (imports_of demo_dir) demo_world) = Ok [demo_a, demo_b]"
    using demo_imports_dir demo_discovered
    by (simp add: get_glb_files_imports demo_world_def)
  have n: "name demo_a = ''a.GLB''" by (simp add: demo_a_def name_def)
  have e: "ensure_dirs (fsys demo_world)
             [[''srv'', ''data'', ''exports'', ''resize''], [''srv'', ''data'', ''exports'', ''webp''],
              [''srv'', ''data'', ''exports'', ''draco'']] = Inr demo_fs_after"
    using demo_stage_dirs by (simp add: demo_world_def stage_dirs_def demo_dir_def)
  have t: "trace demo_world = []" by (simp add: demo_world_def)
  from C8_output_paths[OF g, of demo_a demo_tool demo_world] g show ?thesis
    by (simp add: n demo_dir_def e t demo_tool_def del: ensure_dirs.simps)
qed

subsection \<open>C9: the stage directories are made first\<close>

text \<open>
  C9, as stated, says that for every file the pipeline is invoked on the three
  stage directories are created before the first step, and exist afterwards.
  Where the directory \<open>data\<close> refuses new entries, the pipeline is invoked on the
  file \<open>a.glb\<close> that discovery returns, the first \<open>mkdir\<close> raises
  \<open>PermissionError\<close>, and none of the three directories exists afterwards,
  after the pipeline and after the run.
\<close>

theorem C9_counterexample:
  "fst (get_glb_files (imports_of demo_dir) locked_world) =
     Ok [[''srv'', ''data'', ''imports'', ''a.glb'']]
   \<and> fst (process_glb_file good_tool [''srv'', ''data'', ''imports'', ''a.glb''] demo_dir
          locked_world) =
       Raise (OSError (PermissionError [''srv'', ''data'', ''exports'']))
   \<and> \<not> is_dir (fsys (snd (process_glb_file good_tool [''srv'', ''data'', ''imports'', ''a.glb'']
                        demo_dir locked_world))) [''srv'', ''data'', ''exports'', ''resize'']
   \<and> \<not> is_dir (fsys (snd (process_glb_file good_tool [''srv'', ''data'', ''imports'', ''a.glb'']
                        demo_dir locked_world))) [''srv'', ''data'', ''exports'', ''webp'']
   \<and> \<not> is_dir (fsys (snd (process_glb_file good_tool [''srv'', ''data'', ''imports'', ''a.glb'']
                        demo_dir locked_world))) [''srv'', ''data'', ''exports'', ''draco'']
   \<and> fst (main good_tool demo_dir locked_world) =
       Raise (OSError (PermissionError [''srv'', ''data'', ''exports'']))
   \<and> \<not> is_dir (fsys (snd (main good_tool demo_dir locked_world)))
         [''srv'', ''data'', ''exports'', ''resize'']
   \<and> \<not> is_dir (fsys (snd (main good_tool demo_dir locked_world)))
         [''srv'', ''data'', ''exports'', ''webp'']
   \<and> \<not> is_dir (fsys (snd (main good_tool demo_dir locked_world)))
         [''srv'', ''data'', ''exports'', ''draco'']"
  by code_simp

text \<open>
  C9, amended. For every file the pipeline is invoked on, when the three stage
  directories can be created (each is made with its parents, and one that is
  there already is left as it is): what the pipeline does begins with the
  three header lines followed by the three \<open>mkdir\<close> calls, for the resize, WebP
  and compression directories in this order; every command it runs comes
  after them, and the first step is attempted; and the three directories are
  directories in the file system it leaves, whatever the steps do. When one
  of the directories cannot be created the pipeline raises that error and no
  step is attempted. When the three directories are there already the file
  system is left unchanged. At the level of a whole run: when discovery finds
  at least one file and the stage directories can be created, the three
  directories exist when \<open>main\<close> ends, whatever the outcome of the steps.
\<close>

theorem C9_dirs_before_steps:
  assumes "process_glb_file T input_file base_dir w = (r, w')"
  shows "(ensure_dirs (fsys w)
             [parent (stage_output base_dir ''resize'' input_file),
              parent (stage_output base_dir ''webp'' input_file),
              parent (stage_output base_dir ''draco'' input_file)] = Inr fsy' \<longrightarrow>
            (\<exists>steps. trace w' =
                trace w
                @ [Print BlankRule, Print (Processing (name input_file)), Print Rule]
                @ map MakeDir
                    [parent (stage_output base_dir ''resize'' input_file),
                     parent (stage_output base_dir ''webp'' input_file),
                     parent (stage_output base_dir ''draco'' input_file)]
                @ steps
                \<and> execs (trace w') = execs (trace w) @ execs steps
                \<and> execs steps \<noteq> [])
            \<and> fsys w' = fsy'
            \<and> is_dir (fsys w') (parent (stage_output base_dir ''resize'' input_file))
            \<and> is_dir (fsys w') (parent (stage_output base_dir ''webp'' input_file))
            \<and> is_dir (fsys w') (parent (stage_output base_dir ''draco'' input_file)))
         \<and> (ensure_dirs (fsys w)
               [parent (stage_output base_dir ''resize'' input_file),
                parent (stage_output base_dir ''webp'' input_file),
                parent (stage_output base_dir ''draco'' input_file)] = Inl err \<longrightarrow>
              r = Raise (OSError err) \<and> execs (trace w') = execs (trace w))
         \<and> (is_dir (fsys w) (parent (stage_output base_dir ''resize'' input_file))
              \<and> is_dir (fsys w) (parent (stage_output base_dir ''webp'' input_file))
              \<and> is_dir (fsys w) (parent (stage_output base_dir ''draco'' input_file)) \<longrightarrow>
              fsys w' = fsys w \<and> execs (trace w') \<noteq> execs (trace w))
         \<and> (is_dir (fsys w) (imports_of base_dir)
              \<and> discovered base_dir (fsys w) \<noteq> []
              \<and> ensure_dirs (fsys w) (stage_dirs base_dir) = Inr fsy2 \<longrightarrow>
              (\<forall>d\<in>set (stage_dirs base_dir). is_dir (fsys (snd (main T base_dir w))) d))"
proof -
  let ?ds = "[parent (stage_output base_dir ''resize'' input_file),
              parent (stage_output base_dir ''webp'' input_file),
              parent (stage_output base_dir ''draco'' input_file)]"
  have ds: "file_stage_dirs base_dir input_file = ?ds" by (simp add: file_stage_dirs_def)
  have inr: "(\<exists>steps. trace w' =
                trace w
                @ [Print BlankRule, Print (Processing (name input_file)), Print Rule]
                @ map MakeDir ?ds @ steps
                \<and> execs (trace w') = execs (trace w) @ execs steps
                \<and> execs steps \<noteq> [])
            \<and> fsys w' = f3
            \<and> is_dir (fsys w') (parent (stage_output base_dir ''resize'' input_file))
            \<and> is_dir (fsys w') (parent (stage_output base_dir ''webp'' input_file))
            \<and> is_dir (fsys w') (parent (stage_output base_dir ''draco'' input_file))"
    if e: "ensure_dirs (fsys w) ?ds = Inr f3" for f3
  proof -
    from e ds have e': "ensure_dirs (fsys w) (file_stage_dirs base_dir input_file) = Inr f3"
      by simp
    from process_glb_file_ok[OF e', of T] assms
    have w': "w' = w\<lparr>fsys := f3, trace := trace w @ file_events T base_dir input_file\<rparr>"
      by auto
    let ?steps = "run_steps T (zip (file_cmds base_dir input_file) (descriptions input_file))
        @ (if file_ok T base_dir input_file then [Print (Processed (name input_file))] else [])"
    have t: "trace w' =
               trace w @ [Print BlankRule, Print (Processing (name input_file)), Print Rule]
               @ map MakeDir ?ds @ ?steps"
      by (simp add: w' file_events_def header_def file_stage_dirs_def)
    have x: "execs (trace w') = execs (trace w) @ execs ?steps"
      by (simp add: t)
    have n: "execs ?steps \<noteq> []"
      by (simp add: file_cmds_def descriptions_def)
    have d: "\<forall>d\<in>set ?ds. is_dir (fsys w') d"
      using ensure_dirs_makes[OF e] by (simp add: w')
    from t x n have "\<exists>steps. trace w' =
                trace w
                @ [Print BlankRule, Print (Processing (name input_file)), Print Rule]
                @ map MakeDir ?ds @ steps
                \<and> execs (trace w') = execs (trace w) @ execs steps
                \<and> execs steps \<noteq> []"
      by blast
    with d w' show ?thesis by simp
  qed
  have inl: "r = Raise (OSError err) \<and> execs (trace w') = execs (trace w)"
    if e: "ensure_dirs (fsys w) ?ds = Inl err"
  proof -
    from e ds have "ensure_dirs (fsys w) (file_stage_dirs base_dir input_file) = Inl err"
      by simp
    from process_glb_file_fail[OF this, of T] assms show ?thesis by auto
  qed
  have ex: "fsys w' = fsys w \<and> execs (trace w') \<noteq> execs (trace w)"
    if "is_dir (fsys w) (parent (stage_output base_dir ''resize'' input_file))
          \<and> is_dir (fsys w) (parent (stage_output base_dir ''webp'' input_file))
          \<and> is_dir (fsys w) (parent (stage_output base_dir ''draco'' input_file))"
  proof -
    from that have "\<forall>d\<in>set ?ds. is_dir (fsys w) d" by simp
    from ensure_dirs_existing[OF this] have "ensure_dirs (fsys w) ?ds = Inr (fsys w)" .
    from inr[OF this] show ?thesis by auto
  qed
  have m: "\<forall>d\<in>set (stage_dirs base_dir). is_dir (fsys (snd (main T base_dir w))) d"
    if "is_dir (fsys w) (imports_of base_dir)" "discovered base_dir (fsys w) \<noteq> []"
      "ensure_dirs (fsys w) (stage_dirs base_dir) = Inr fsy2"
    using main_fsys[OF that, of T] ensure_dirs_makes[OF that(3)] by simp
  from inr[of fsy'] inl ex m show ?thesis by blast
qed

theorem C9_dirs_before_steps_witness:
  "fst (process_glb_file missing_tool demo_a demo_dir demo_world) = Ok False
   \<and> \<not> is_dir (fsys demo_world) [''srv'', ''data'', ''exports'', ''resize'']
   \<and> \<not> is_dir (fsys demo_world) [''srv'', ''data'', ''exports'', ''webp'']
   \<and> \<not> is_dir (fsys demo_world) [''srv'', ''data'', ''exports'', ''draco'']
   \<and> is_dir (fsys (snd (process_glb_file missing_tool demo_a demo_dir demo_world)))
        [''srv'', ''data'', ''exports'', ''resize'']
   \<and> is_dir (fsys (snd (process_glb_file missing_tool demo_a demo_dir demo_world)))
        [''srv'', ''data'', ''exports'', ''webp'']
   \<and> is_dir (fsys (snd (process_glb_file missing_tool demo_a demo_dir demo_world)))
        [''srv'', ''data'', ''exports'', ''draco'']"
proof -
  have e: "ensure_dirs (fsys demo_world) (file_stage_dirs demo_dir demo_a) = Inr demo_fs_after"
    by (simp add: demo_world_def demo_file_stage_dirs demo_stage_dirs)
  have r: "fst (process_glb_file missing_tool demo_a demo_dir demo_world) = Ok False"
    by (simp add: process_glb_file_returns[OF e missing_completes(1)] missing_completes(2))
  have p: "process_glb_file missing_tool demo_a demo_dir demo_world =
             (Ok False, snd (process_glb_file missing_tool demo_a demo_dir demo_world))"
    using r by (metis prod.collapse)
  have s: "parent (stage_output demo_dir ''resize'' demo_a) = [''srv'', ''data'', ''exports'', ''resize'']"
    "parent (stage_output demo_dir ''webp'' demo_a) = [''srv'', ''data'', ''exports'', ''webp'']"
    "parent (stage_output demo_dir ''draco'' demo_a) = [''srv'', ''data'', ''exports'', ''draco'']"
    by code_simp+
  have e': "ensure_dirs (fsys demo_world)
              [[''srv'', ''data'', ''exports'', ''resize''], [''srv'', ''data'', ''exports'', ''webp''],
               [''srv'', ''data'', ''exports'', ''draco'']] = Inr demo_fs_after"
    using e by (simp add: file_stage_dirs_def s)
  have n: "\<not> is_dir (fsys demo_world) [''srv'', ''data'', ''exports'', ''resize'']"
    "\<not> is_dir (fsys demo_world) [''srv'', ''data'', ''exports'', ''webp'']"
    "\<not> is_dir (fsys demo_world) [''srv'', ''data'', ''exports'', ''draco'']"
    by code_simp+
  have "is_dir (fsys (snd (process_glb_file missing_tool demo_a demo_dir demo_world)))
          [''srv'', ''data'', ''exports'', ''resize'']
        \<and> is_dir (fsys (snd (process_glb_file missing_tool demo_a demo_dir demo_world)))
          [''srv'', ''data'', ''exports'', ''webp'']
        \<and> is_dir (fsys (snd (process_glb_file missing_tool demo_a demo_dir demo_world)))
          [''srv'', ''data'', ''exports'', ''draco'']"
    using C9_dirs_before_steps[OF p, of demo_fs_after] e'
    unfolding s by blast
  with r n show ?thesis by blast
qed

subsection \<open>C10: a file named \<open>.glb\<close>\<close>

text \<open>
  C10. A path whose name is exactly \<open>.glb\<close> is never among the files that
  \<open>get_glb_files\<close> returns, whatever it is in the file system: its suffix is
  the empty string, although the last four characters of its name are \<open>.glb\<close>.
\<close>

theorem C10_dotfile_not_discovered:
  assumes "fst (get_glb_files d w) = Ok gs" and "name p = ''.glb''"
  shows "p \<notin> set gs \<and> suffix p = []
         \<and> lower (drop (length (name p) - 4) (name p)) = ''.glb''"
proof -
  have r: "rfind ''.glb'' CHR ''.'' = 0" by (simp add: rfind_def)
  have s: "suffix p = []" by (simp add: suffix_def assms(2) r)
  then have "\<not> matches (fsys w) p" by (simp add: matches_def lower_def)
  with get_glb_files_Ok[OF assms(1)] have "p \<notin> set gs" by simp
  moreover have "lower ''.glb'' = ''.glb''" by (simp add: lower_def lower_char_def)
  ultimately show ?thesis using s by (simp add: assms(2))
qed

theorem C10_dotfile_not_discovered_witness:
  "is_file (fsys demo_world) [''srv'', ''data'', ''imports'', ''.glb'']
   \<and> fst (get_glb_files (imports_of demo_dir) demo_world) = Ok [demo_a, demo_b]
   \<and> [''srv'', ''data'', ''imports'', ''.glb''] \<notin> set [demo_a, demo_b]"
proof -
  have g: "fst (get_glb_files (imports_of demo_dir) demo_world) = Ok [demo_a, demo_b]"
    using demo_imports_dir demo_discovered
    by (simp add: get_glb_files_imports demo_world_def)
  have n: "name [''srv'', ''data'', ''imports'', ''.glb''] = ''.glb''" by (simp add: name_def)
  have f: "is_file (fsys demo_world) [''srv'', ''data'', ''imports'', ''.glb'']"
    by (simp add: is_file_def demo_world_def demo_fs_def)
  from C10_dotfile_not_discovered[OF g n] g f show ?thesis by simp
qed

end
